theory Spec2Isabelle
  imports Main "HOL-Library.Multiset"
begin

section \<open>Position mapper (sheets\_handler.py)\<close>

text \<open>
  \<^verbatim>\<open>GoogleSheetHandler.row_for_position\<close>:
  \<^verbatim>\<open>return pos + 1 if pos <= self.reserved else pos + 4\<close>.
  Python integers are unbounded, hence \<open>int\<close>; the attribute \<open>self.reserved\<close> is the
  first argument, its constructor default is 72.
\<close>

definition reserved_default :: int where
  "reserved_default = 72"

definition row_for_position :: "int \<Rightarrow> int \<Rightarrow> int" where
  "row_for_position reserved pos = (if pos \<le> reserved then pos + 1 else pos + 4)"

section \<open>Strings\<close>

text \<open>
  A Python \<^verbatim>\<open>str\<close> is a sequence of Unicode code points, modelled as a list of
  natural numbers. \<open>asc\<close> turns an ASCII literal into such a list; the two non-ASCII
  characters of the program are the en dash U+2013 and the letter a-umlaut U+00E4.
\<close>

type_synonym pystr = "nat list"

definition asc :: "string \<Rightarrow> pystr" where
  "asc s = map of_char s"

definition EN_DASH :: nat where
  "EN_DASH = 8211"

definition A_UMLAUT :: nat where
  "A_UMLAUT = 228"

text \<open>
  The two status words of the rendered text, \<open>best\<close> + a-umlaut + \<open>tigt\<close>, and the same
  word with the prefix \<open>un\<close>.
\<close>

definition bestaetigt :: pystr where
  "bestaetigt = asc ''best'' @ [A_UMLAUT] @ asc ''tigt''"

definition unbestaetigt :: pystr where
  "unbestaetigt = asc ''un'' @ bestaetigt"

text \<open>\<^verbatim>\<open>s.startswith(p)\<close> and \<^verbatim>\<open>s.endswith(p)\<close>.\<close>

definition startswith :: "pystr \<Rightarrow> pystr \<Rightarrow> bool" where
  "startswith s p = (take (length p) s = p)"

definition endswith :: "pystr \<Rightarrow> pystr \<Rightarrow> bool" where
  "endswith s p = (length p \<le> length s \<and> drop (length s - length p) s = p)"

text \<open>
  \<^verbatim>\<open>s.split(sep)[0]\<close> for a non-empty separator: the part of \<open>s\<close> before the first
  occurrence of \<open>sep\<close>, scanning from the left, and the whole of \<open>s\<close> when \<open>sep\<close> does not
  occur.
\<close>

fun split_head :: "pystr \<Rightarrow> pystr \<Rightarrow> pystr" where
  "split_head sep [] = []"
| "split_head sep (c # cs) =
     (if startswith (c # cs) sep then [] else c # split_head sep cs)"

definition AUS :: pystr where
  "AUS = asc '' aus ''"

text \<open>\<^verbatim>\<open>team = text.split(" aus ")[0]\<close> (main.py, line 49).\<close>

definition team_of :: "pystr \<Rightarrow> pystr" where
  "team_of text = split_head AUS text"

section \<open>Reconciler (main.py, lines 42 to 64)\<close>

text \<open>
  A row of the row set is the tuple \<open>(position, text, paid)\<close>. An update is
  \<open>(row, [pos, text])\<close> or \<open>(row, ["", ""])\<close>, so a written cell holds an integer or a
  string. A colour instruction is \<open>(row, paid)\<close> with \<open>paid\<close> a boolean or \<^verbatim>\<open>None\<close>.
\<close>

type_synonym sheet_row = "int \<times> pystr \<times> bool"

datatype cell = IntCell int | StrCell pystr

type_synonym update = "int \<times> cell list"

type_synonym colour = "int \<times> bool option"

text \<open>
  The value stored for a team by \<^verbatim>\<open>_read_sheet\<close>:
  \<^verbatim>\<open>{"row": idx, "pos": pos, "paid": paid, "text": cell}\<close>.
\<close>

record meta =
  meta_row :: int
  meta_pos :: int
  meta_paid :: bool
  meta_text :: pystr

text \<open>
  The dictionary \<^verbatim>\<open>current\<close> is an association list in insertion order, which is the
  order in which \<^verbatim>\<open>current.items()\<close> yields it; \<^verbatim>\<open>team in current\<close> and
  \<^verbatim>\<open>current[team]\<close> are \<open>map_of\<close>. A Python dictionary has each key once:
  \<open>distinct (map fst current)\<close>.
\<close>

type_synonym store = "(pystr \<times> meta) list"

definition BLANK :: "cell list" where
  "BLANK = [StrCell [], StrCell []]"

text \<open>
  The first loop, \<^verbatim>\<open>for pos, text, paid in rows\<close>, with the three accumulators
  \<^verbatim>\<open>updates\<close>, \<^verbatim>\<open>formats\<close> and \<^verbatim>\<open>seen\<close> as state.
\<close>

fun upsert_loop ::
  "int \<Rightarrow> store \<Rightarrow> sheet_row list \<Rightarrow> update list \<times> colour list \<times> pystr set
     \<Rightarrow> update list \<times> colour list \<times> pystr set" where
  "upsert_loop reserved current [] st = st"
| "upsert_loop reserved current ((pos, text, paid) # rows) (updates, formats, seen) =
     (let row_idx = row_for_position reserved pos;
          team = team_of text;
          seen' = insert team seen;
          updates' =
            (case map_of current team of
               Some m \<Rightarrow>
                 if meta_text m \<noteq> text
                 then updates @ [(row_idx, [IntCell pos, StrCell text])]
                 else updates
             | None \<Rightarrow> updates @ [(row_idx, [IntCell pos, StrCell text])]);
          formats' = formats @ [(row_idx, Some paid)]
      in upsert_loop reserved current rows (updates', formats', seen'))"

text \<open>The second loop, \<^verbatim>\<open>for team, meta in current.items()\<close>.\<close>

fun clear_loop ::
  "store \<Rightarrow> pystr set \<Rightarrow> update list \<times> colour list \<Rightarrow> update list \<times> colour list" where
  "clear_loop [] seen st = st"
| "clear_loop ((team, m) # rest) seen (updates, formats) =
     (if team \<notin> seen
      then clear_loop rest seen
             (updates @ [(meta_row m, BLANK)], formats @ [(meta_row m, None)])
      else clear_loop rest seen (updates, formats))"

text \<open>Both loops: the lists handed to \<^verbatim>\<open>sheet.apply_changes(updates, formats)\<close>.\<close>

definition reconcile :: "int \<Rightarrow> store \<Rightarrow> sheet_row list \<Rightarrow> update list \<times> colour list" where
  "reconcile reserved current rows =
     (case upsert_loop reserved current rows ([], [], {}) of
        (updates, formats, seen) \<Rightarrow> clear_loop current seen (updates, formats))"

text \<open>The team names of a row set, and the condition under which a row is written.\<close>

definition teams_of :: "sheet_row list \<Rightarrow> pystr set" where
  "teams_of rows = (\<lambda>(pos, text, paid). team_of text) ` set rows"

definition needs_write :: "store \<Rightarrow> pystr \<Rightarrow> bool" where
  "needs_write current text =
     (case map_of current (team_of text) of
        None \<Rightarrow> True
      | Some m \<Rightarrow> meta_text m \<noteq> text)"

section \<open>Auxiliary functions for the reconciler's properties\<close>

text \<open>
  What one row contributes to the update list and to the colour list, and the store entries
  whose team is not in the row set.
\<close>

definition upd_of :: "int \<Rightarrow> store \<Rightarrow> sheet_row \<Rightarrow> update list" where
  "upd_of reserved current r = (case r of (pos, text, paid) \<Rightarrow>
     if needs_write current text then [(row_for_position reserved pos, [IntCell pos, StrCell text])] else [])"

definition colour_of :: "int \<Rightarrow> sheet_row \<Rightarrow> colour" where
  "colour_of reserved r = (case r of (pos, text, paid) \<Rightarrow> (row_for_position reserved pos, Some paid))"

definition gone :: "store \<Rightarrow> sheet_row list \<Rightarrow> store" where
  "gone current rows = filter (\<lambda>(team, m). team \<notin> teams_of rows) current"

section \<open>Example stores and row sets\<close>

definition text_A :: pystr where
  "text_A = asc ''A aus X '' @ [EN_DASH] @ asc '' '' @ bestaetigt"

definition text_B :: pystr where
  "text_B = asc ''B aus Y '' @ [EN_DASH] @ asc '' '' @ unbestaetigt"

definition text_C :: pystr where
  "text_C = asc ''C aus Z '' @ [EN_DASH] @ asc '' '' @ unbestaetigt"

definition store_AB :: store where
  "store_AB =
     [(asc ''A'', \<lparr>meta_row = 5, meta_pos = 4, meta_paid = True, meta_text = text_A\<rparr>),
      (asc ''B'', \<lparr>meta_row = 6, meta_pos = 5, meta_paid = False, meta_text = text_B\<rparr>)]"

definition rows_AC :: "sheet_row list" where
  "rows_AC = [(1, text_A, True), (2, text_C, False)]"

definition store_A :: store where
  "store_A = [(asc ''A'', \<lparr>meta_row = 2, meta_pos = 1, meta_paid = True, meta_text = text_A\<rparr>)]"

definition rows_A :: "sheet_row list" where
  "rows_A = [(1, text_A, True)]"

section \<open>Timestamps (campflow\_api.py, \<^verbatim>\<open>make_rows.to_dt\<close>)\<close>

text \<open>
  The exceptions that the modelled code can raise. \<open>SourceError\<close> and \<open>StoreError\<close> stand
  for whatever the HTTP client and the spreadsheet client raise.
\<close>

datatype exn =
  KeyError | ValueError | OverflowError | AttributeError | TypeError | SourceError | StoreError

text \<open>
  \<^verbatim>\<open>datetime.fromisoformat\<close> belongs to Python's standard library, and the strings it
  accepts differ between Python versions. In the model of \<^verbatim>\<open>to_dt\<close> it is therefore a
  parameter, a function from strings to an exception or a parsed value. A parsed value
  keeps the fields and the UTC offset in microseconds, \<open>None\<close> for a naive value.

  \<open>fromisoformat_documented\<close> below is one such function, used for the examples and for
  the statements about timestamps of a known form. It reads the format that the library
  has documented since Python 3.7,
  \<^verbatim>\<open>YYYY-MM-DD[*HH[:MM[:SS[.fff[fff]]]][+HH:MM[:SS[.ffffff]]]]\<close>
  where \<^verbatim>\<open>*\<close> is any single character, with the range checks of the \<^verbatim>\<open>datetime\<close> and
  \<^verbatim>\<open>timezone\<close> constructors. Every version of the library reads a string of this format
  to the value given here. A string outside the format is a \<^verbatim>\<open>ValueError\<close> here; later
  versions of the library accept some of those.
\<close>

record datetime =
  dt_year :: nat
  dt_month :: nat
  dt_day :: nat
  dt_hour :: nat
  dt_minute :: nat
  dt_second :: nat
  dt_microsecond :: nat
  dt_utcoffset :: "int option"

definition digit :: "nat \<Rightarrow> nat option" where
  "digit c = (if 48 \<le> c \<and> c \<le> 57 then Some (c - 48) else None)"

fun digits_acc :: "nat \<Rightarrow> pystr \<Rightarrow> nat option" where
  "digits_acc acc [] = Some acc"
| "digits_acc acc (c # cs) =
     (case digit c of None \<Rightarrow> None | Some d \<Rightarrow> digits_acc (10 * acc + d) cs)"

text \<open>The number written by the \<open>n\<close> characters of \<open>s\<close> from index \<open>i\<close>, all of them digits.\<close>

definition field :: "pystr \<Rightarrow> nat \<Rightarrow> nat \<Rightarrow> nat option" where
  "field s i n =
     (if i + n \<le> length s then digits_acc 0 (take n (drop i s)) else None)"

definition is_leap :: "nat \<Rightarrow> bool" where
  "is_leap y = (y mod 4 = 0 \<and> (y mod 100 \<noteq> 0 \<or> y mod 400 = 0))"

definition days_in_month :: "nat \<Rightarrow> nat \<Rightarrow> nat" where
  "days_in_month y m =
     (if m = 2 then (if is_leap y then 29 else 28)
      else if m = 4 \<or> m = 6 \<or> m = 9 \<or> m = 11 then 30 else 31)"

definition days_before_year :: "nat \<Rightarrow> nat" where
  "days_before_year y =
     (y - 1) * 365 + (y - 1) div 4 - (y - 1) div 100 + (y - 1) div 400"

definition days_before_month :: "nat \<Rightarrow> nat \<Rightarrow> nat" where
  "days_before_month y m =
     [0, 0, 31, 59, 90, 120, 151, 181, 212, 243, 273, 304, 334] ! m
       + (if 2 < m \<and> is_leap y then 1 else 0)"

text \<open>\<^verbatim>\<open>date.toordinal\<close>: day 1 is 0001-01-01.\<close>

definition ordinal :: "nat \<Rightarrow> nat \<Rightarrow> nat \<Rightarrow> nat" where
  "ordinal y m d = days_before_year y + days_before_month y m + d"

text \<open>\<^verbatim>\<open>HH\<close>, \<^verbatim>\<open>HH:MM\<close>, \<^verbatim>\<open>HH:MM:SS\<close>, and a fraction of \<open>3\<close> or \<open>6\<close> digits where \<open>frac3\<close> allows three.\<close>

definition parse_hms :: "bool \<Rightarrow> pystr \<Rightarrow> (nat \<times> nat \<times> nat \<times> nat) option" where
  "parse_hms frac3 t =
     (let n = length t; colon = 58; dot = 46 in
      if n = 2 then
        (case field t 0 2 of Some h \<Rightarrow> Some (h, 0, 0, 0) | None \<Rightarrow> None)
      else if n = 5 \<and> t ! 2 = colon then
        (case (field t 0 2, field t 3 2) of
           (Some h, Some mi) \<Rightarrow> Some (h, mi, 0, 0) | _ \<Rightarrow> None)
      else if n = 8 \<and> t ! 2 = colon \<and> t ! 5 = colon then
        (case (field t 0 2, field t 3 2, field t 6 2) of
           (Some h, Some mi, Some s) \<Rightarrow> Some (h, mi, s, 0) | _ \<Rightarrow> None)
      else if n = 12 \<and> frac3 \<and> t ! 2 = colon \<and> t ! 5 = colon \<and> t ! 8 = dot then
        (case (field t 0 2, field t 3 2, field t 6 2, field t 9 3) of
           (Some h, Some mi, Some s, Some f) \<Rightarrow> Some (h, mi, s, f * 1000) | _ \<Rightarrow> None)
      else if n = 15 \<and> t ! 2 = colon \<and> t ! 5 = colon \<and> t ! 8 = dot then
        (case (field t 0 2, field t 3 2, field t 6 2, field t 9 6) of
           (Some h, Some mi, Some s, Some f) \<Rightarrow> Some (h, mi, s, f) | _ \<Rightarrow> None)
      else None)"

definition is_sign :: "nat \<Rightarrow> bool" where
  "is_sign c = (c = 43 \<or> c = 45)"

text \<open>
  The UTC offset in microseconds written after the sign; the \<^verbatim>\<open>timezone\<close> constructor
  wants it strictly between minus and plus one day.
\<close>

definition parse_offset :: "pystr \<Rightarrow> int option" where
  "parse_offset z =
     (case z of
        [] \<Rightarrow> None
      | c # t \<Rightarrow>
          (case (if length t = 2 then None else parse_hms False t) of
             None \<Rightarrow> None
           | Some (h, mi, s, f) \<Rightarrow>
               (let off = (int h * 3600 + int mi * 60 + int s) * 1000000 + int f in
                if off < 86400 * 1000000
                then Some (if c = 45 then - off else off)
                else None)))"

definition fromisoformat_documented :: "pystr \<Rightarrow> exn + datetime" where
  "fromisoformat_documented s =
     (if length s < 10 \<or> s ! 4 \<noteq> 45 \<or> s ! 7 \<noteq> 45 then Inl ValueError
      else
        (case (field s 0 4, field s 5 2, field s 8 2) of
           (Some y, Some m, Some d) \<Rightarrow>
             if y < 1 \<or> m < 1 \<or> 12 < m \<or> d < 1 \<or> days_in_month y m < d then Inl ValueError
             else if length s = 10 then
               Inr \<lparr>dt_year = y, dt_month = m, dt_day = d, dt_hour = 0, dt_minute = 0,
                    dt_second = 0, dt_microsecond = 0, dt_utcoffset = None\<rparr>
             else
               (let tstr = drop 11 s;
                    tpart = takeWhile (\<lambda>c. \<not> is_sign c) tstr;
                    zpart = dropWhile (\<lambda>c. \<not> is_sign c) tstr in
                case parse_hms True tpart of
                  None \<Rightarrow> Inl ValueError
                | Some (h, mi, sec, f) \<Rightarrow>
                    if 23 < h \<or> 59 < mi \<or> 59 < sec then Inl ValueError
                    else if zpart = [] then
                      Inr \<lparr>dt_year = y, dt_month = m, dt_day = d, dt_hour = h,
                           dt_minute = mi, dt_second = sec, dt_microsecond = f,
                           dt_utcoffset = None\<rparr>
                    else
                      (case parse_offset zpart of
                         None \<Rightarrow> Inl ValueError
                       | Some off \<Rightarrow>
                           Inr \<lparr>dt_year = y, dt_month = m, dt_day = d, dt_hour = h,
                                dt_minute = mi, dt_second = sec, dt_microsecond = f,
                                dt_utcoffset = Some off\<rparr>))
         | _ \<Rightarrow> Inl ValueError))"

text \<open>
  The wall-clock reading of a value in microseconds, counted from the start of day 0 of
  the ordinal calendar.
\<close>

definition wall_clock :: "datetime \<Rightarrow> int" where
  "wall_clock dt =
     (((int (ordinal (dt_year dt) (dt_month dt) (dt_day dt)) * 24 + int (dt_hour dt)) * 60
         + int (dt_minute dt)) * 60 + int (dt_second dt)) * 1000000
       + int (dt_microsecond dt)"

definition MIN_INSTANT :: int where
  "MIN_INSTANT = 86400 * 1000000"

definition MAX_INSTANT :: int where
  "MAX_INSTANT = 3652060 * 86400 * 1000000 - 1"

text \<open>
  \<^verbatim>\<open>.astimezone(timezone.utc)\<close>: the value's own offset is subtracted. A naive value is
  taken as local time of the machine: the library asks the platform for the offset of
  that wall-clock reading, which is the parameter \<open>local\<close>; it gives the offset in
  microseconds or the exception that the lookup raises. The result must lie between
  year 1 and year 9999, else \<^verbatim>\<open>OverflowError\<close>. The result is the UTC instant in
  microseconds; two results compare as these numbers do.
\<close>

definition in_range :: "int \<Rightarrow> exn + int" where
  "in_range u = (if u < MIN_INSTANT \<or> MAX_INSTANT < u then Inl OverflowError else Inr u)"

definition astimezone_utc :: "(int \<Rightarrow> exn + int) \<Rightarrow> datetime \<Rightarrow> exn + int" where
  "astimezone_utc local dt =
     (let w = wall_clock dt in
      case dt_utcoffset dt of
        Some off \<Rightarrow> in_range (w - off)
      | None \<Rightarrow>
          (case local w of
             Inl e \<Rightarrow> Inl e
           | Inr off \<Rightarrow> in_range (w - off)))"

definition UTC_SUFFIX :: pystr where
  "UTC_SUFFIX = asc ''+00:00''"

text \<open>\<^verbatim>\<open>s[-6:]\<close>.\<close>

definition last6 :: "pystr \<Rightarrow> pystr" where
  "last6 s = drop (length s - 6) s"

text \<open>
  \<^verbatim>\<open>to_dt\<close>, lines 58 to 63:
  \<^verbatim>\<open>if s.endswith("Z"): s = s[:-1] + "+00:00"\<close>,
  \<^verbatim>\<open>elif "+" not in s[-6:] and "-" not in s[-6:]: s += "+00:00"\<close>,
  \<^verbatim>\<open>return datetime.fromisoformat(s).astimezone(timezone.utc)\<close>.
  The first argument is the library's \<^verbatim>\<open>fromisoformat\<close>.
\<close>

definition to_dt ::
  "(pystr \<Rightarrow> exn + datetime) \<Rightarrow> (int \<Rightarrow> exn + int) \<Rightarrow> pystr \<Rightarrow> exn + int" where
  "to_dt fromisoformat local s =
     (let s' = (if endswith s (asc ''Z'') then butlast s @ UTC_SUFFIX
                else if 43 \<notin> set (last6 s) \<and> 45 \<notin> set (last6 s) then s @ UTC_SUFFIX
                else s)
      in case fromisoformat s' of
           Inl e \<Rightarrow> Inl e
         | Inr dt \<Rightarrow> astimezone_utc local dt)"

section \<open>Row builder (campflow\_api.py, \<^verbatim>\<open>fetch_persons\<close> and \<^verbatim>\<open>make_rows\<close>)\<close>

text \<open>
  \<^verbatim>\<open>str.strip()\<close> removes, at both ends, the characters for which \<^verbatim>\<open>str.isspace\<close> holds:
  the ASCII controls 9 to 13 and 28 to 31, the space, and the Unicode spaces listed below.
\<close>

definition isspace :: "nat \<Rightarrow> bool" where
  "isspace c =
     ((9 \<le> c \<and> c \<le> 13) \<or> (28 \<le> c \<and> c \<le> 32) \<or> c = 133 \<or> c = 160 \<or> c = 5760
      \<or> (8192 \<le> c \<and> c \<le> 8202) \<or> c = 8232 \<or> c = 8233 \<or> c = 8239 \<or> c = 8287
      \<or> c = 12288)"

definition strip :: "pystr \<Rightarrow> pystr" where
  "strip s = rev (dropWhile isspace (rev (dropWhile isspace s)))"

text \<open>\<^verbatim>\<open>sub in s\<close> for strings.\<close>

fun contains :: "pystr \<Rightarrow> pystr \<Rightarrow> bool" where
  "contains sub [] = (sub = [])"
| "contains sub (c # cs) = (startswith (c # cs) sub \<or> contains sub cs)"

text \<open>
  A person record of the Campflow payload is a JSON object; the model keeps the five
  values that the program reads, each \<open>None\<close> when the key is missing. What the program
  does with a value depends on its JSON type only as far as the types below tell apart:
  \<^item> \<open>jval\<close>, for the creation timestamp, the team and the village: a string, or any
    other JSON value (null, number, boolean, array, object), on which the string
    methods \<^verbatim>\<open>endswith\<close> and \<^verbatim>\<open>strip\<close> do not exist;
  \<^item> \<open>jlabels\<close>, for the right-hand side of \<^verbatim>\<open>LABEL_PAID in ...\<close>: an array of JSON
    values, a string (substring test), an object with its keys (key test), or null, a
    number or a boolean, on which \<^verbatim>\<open>in\<close> raises \<^verbatim>\<open>TypeError\<close>;
  \<^item> \<open>jtruth\<close>, for the cancellation date, of which only the truth value is used: a
    string, or another JSON value that Python takes as false (null, false, zero, an
    empty array or object) or as true.
  The team and village names are the values of the two column keys \<^verbatim>\<open>TEAM_NAME_COL\<close> and
  \<^verbatim>\<open>VILLAGE_COL\<close>.
\<close>

datatype jval = JStr pystr | JOther

datatype jlabels = LabelList "jval list" | LabelStr pystr | LabelObj "pystr list" | LabelOther

datatype jtruth = TStr pystr | TFalsy | TTruthy

record item =
  creation_date :: "jval option"
  cancellation_date :: "jtruth option"
  team_name :: "jval option"
  village :: "jval option"
  label_names :: "jlabels option"

definition LABEL_PAID :: pystr where
  "LABEL_PAID = asc ''Bezahlt''"

text \<open>
  \<^verbatim>\<open>fetch_persons\<close> keeps the records whose \<^verbatim>\<open>d.get("cancellation_date")\<close> is falsy: the key
  is missing, or the value is the empty string or another false value.
\<close>

definition cancelled :: "item \<Rightarrow> bool" where
  "cancelled d =
     (case cancellation_date d of
        None \<Rightarrow> False
      | Some (TStr s) \<Rightarrow> s \<noteq> []
      | Some TFalsy \<Rightarrow> False
      | Some TTruthy \<Rightarrow> True)"

definition strip_cancellations :: "item list \<Rightarrow> item list" where
  "strip_cancellations ds = filter (\<lambda>d. \<not> cancelled d) ds"

text \<open>
  The sort key \<^verbatim>\<open>lambda it: to_dt(it["creation_date"])\<close>: a missing key raises
  \<^verbatim>\<open>KeyError\<close>, and \<^verbatim>\<open>s.endswith\<close> raises \<^verbatim>\<open>AttributeError\<close> on a value that is no string.
\<close>

definition key_of ::
  "(pystr \<Rightarrow> exn + datetime) \<Rightarrow> (int \<Rightarrow> exn + int) \<Rightarrow> item \<Rightarrow> exn + int" where
  "key_of fromisoformat local it =
     (case creation_date it of
        None \<Rightarrow> Inl KeyError
      | Some JOther \<Rightarrow> Inl AttributeError
      | Some (JStr s) \<Rightarrow> to_dt fromisoformat local s)"

text \<open>
  \<^verbatim>\<open>sorted(items, key=...)\<close> computes the key of every item, in list order, before it
  compares any; the first exception ends the call.
\<close>

fun sort_keys ::
  "(pystr \<Rightarrow> exn + datetime) \<Rightarrow> (int \<Rightarrow> exn + int) \<Rightarrow> item list \<Rightarrow> exn + int list" where
  "sort_keys fromisoformat local [] = Inr []"
| "sort_keys fromisoformat local (it # its) =
     (case key_of fromisoformat local it of
        Inl e \<Rightarrow> Inl e
      | Inr k \<Rightarrow>
          (case sort_keys fromisoformat local its of
             Inl e \<Rightarrow> Inl e
           | Inr ks \<Rightarrow> Inr (k # ks)))"

text \<open>
  \<^verbatim>\<open>it.get(KEY, "").strip()\<close>: the default for a missing key is the empty string; a value
  that is no string has no \<^verbatim>\<open>strip\<close>.
\<close>

definition get_stripped :: "jval option \<Rightarrow> exn + pystr" where
  "get_stripped v =
     (case v of
        None \<Rightarrow> Inr (strip [])
      | Some (JStr s) \<Rightarrow> Inr (strip s)
      | Some JOther \<Rightarrow> Inl AttributeError)"

text \<open>
  \<^verbatim>\<open>LABEL_PAID in it.get("label_names", [])\<close>: the default for a missing key is the empty
  list. In an array the label is found when an element equals it, and only a string can.
\<close>

definition label_paid_in :: "jlabels option \<Rightarrow> exn + bool" where
  "label_paid_in v =
     (case v of
        None \<Rightarrow> Inr False
      | Some (LabelList xs) \<Rightarrow> Inr (JStr LABEL_PAID \<in> set xs)
      | Some (LabelStr s) \<Rightarrow> Inr (contains LABEL_PAID s)
      | Some (LabelObj ks) \<Rightarrow> Inr (LABEL_PAID \<in> set ks)
      | Some LabelOther \<Rightarrow> Inl TypeError)"

text \<open>
  The loop \<^verbatim>\<open>for pos, it in enumerate(ordered, 1)\<close> with the accumulator \<^verbatim>\<open>rows\<close>. The
  team is read first, then the village, then the label; the first exception ends the
  loop.
\<close>

fun rows_loop :: "int \<Rightarrow> item list \<Rightarrow> sheet_row list \<Rightarrow> exn + sheet_row list" where
  "rows_loop pos [] rows = Inr rows"
| "rows_loop pos (it # its) rows =
     (case get_stripped (team_name it) of
        Inl e \<Rightarrow> Inl e
      | Inr team \<Rightarrow>
          (case get_stripped (village it) of
             Inl e \<Rightarrow> Inl e
           | Inr vill \<Rightarrow>
               (case label_paid_in (label_names it) of
                  Inl e \<Rightarrow> Inl e
                | Inr paid \<Rightarrow>
                    (let txt = team @ asc '' aus '' @ vill @ asc '' '' @ [EN_DASH] @ asc '' ''
                                 @ (if paid then bestaetigt else unbestaetigt)
                     in rows_loop (pos + 1) its (rows @ [(pos, txt, paid)])))))"

text \<open>
  \<^verbatim>\<open>make_rows\<close>, applied to the list \<^verbatim>\<open>payload.get("data", [])\<close>. Python's \<^verbatim>\<open>sorted\<close> is
  a stable ascending sort on the keys, as \<open>sort_key\<close> is; the items travel with their keys.
\<close>

definition make_rows ::
  "(pystr \<Rightarrow> exn + datetime) \<Rightarrow> (int \<Rightarrow> exn + int) \<Rightarrow> item list \<Rightarrow> exn + sheet_row list" where
  "make_rows fromisoformat local items =
     (case sort_keys fromisoformat local items of
        Inl e \<Rightarrow> Inl e
      | Inr keys \<Rightarrow>
          (let ordered = map snd (sort_key fst (zip keys items))
           in rows_loop 1 ordered []))"

section \<open>Reading the sheet (sheets\_handler.py, \<^verbatim>\<open>_read_sheet\<close>)\<close>

text \<open>\<^verbatim>\<open>is_paid\<close>: the cell ends with an en dash or a hyphen, a space and the paid word.\<close>

definition is_paid :: "pystr \<Rightarrow> bool" where
  "is_paid c =
     (endswith c ([EN_DASH] @ asc '' '' @ bestaetigt)
      \<or> endswith c (asc ''- '' @ bestaetigt))"

text \<open>
  \<^verbatim>\<open>out[team] = value\<close> on a dictionary in insertion order: an existing key keeps its place
  and gets the new value, a new key goes to the end.
\<close>

fun dict_set :: "'k \<Rightarrow> 'v \<Rightarrow> ('k \<times> 'v) list \<Rightarrow> ('k \<times> 'v) list" where
  "dict_set k v [] = [(k, v)]"
| "dict_set k v ((k', v') # al) =
     (if k' = k then (k, v) # al else (k', v') # dict_set k v al)"

text \<open>
  The loop \<^verbatim>\<open>for idx, row in enumerate(rows, start=2)\<close> over the rows that the sheet
  returns for the range \<^verbatim>\<open>A2:B\<close>, each a list of cell strings. Python's \<^verbatim>\<open>int\<close> on a string
  is the parameter \<open>py_int\<close>, \<open>None\<close> for \<^verbatim>\<open>ValueError\<close>; the row is not empty where
  \<^verbatim>\<open>row[0]\<close> is read.
\<close>

fun read_loop ::
  "(pystr \<Rightarrow> int option) \<Rightarrow> int \<Rightarrow> int \<Rightarrow> pystr list list \<Rightarrow> store \<Rightarrow> store" where
  "read_loop py_int reserved idx [] out = out"
| "read_loop py_int reserved idx (row # rest) out =
     (if idx = reserved + 2 \<or> idx = reserved + 3 \<or> idx = reserved + 4
      then read_loop py_int reserved (idx + 1) rest out
      else if row = [] then read_loop py_int reserved (idx + 1) rest out
      else
        (let cell = (if 1 < length row then row ! 1 else []) in
         if strip cell = asc ''Warteliste''
         then read_loop py_int reserved (idx + 1) rest out
         else
           (let team = (if contains AUS cell then split_head AUS cell else cell);
                paid = is_paid cell;
                pos = (case py_int (row ! 0) of Some n \<Rightarrow> n | None \<Rightarrow> 0)
            in read_loop py_int reserved (idx + 1) rest
                 (dict_set team
                    \<lparr>meta_row = idx, meta_pos = pos, meta_paid = paid, meta_text = cell\<rparr>
                    out))))"

definition read_sheet :: "(pystr \<Rightarrow> int option) \<Rightarrow> int \<Rightarrow> pystr list list \<Rightarrow> store" where
  "read_sheet py_int reserved values = read_loop py_int reserved 2 values []"

section \<open>Auxiliary functions for the row builder's properties\<close>

text \<open>
  The rendering of one row as the specification words it, the row built from an item at
  a position, and the key of an item whose timestamp parses.
\<close>

definition display_text :: "pystr \<Rightarrow> pystr \<Rightarrow> bool \<Rightarrow> pystr" where
  "display_text team vill paid =
     team @ asc '' aus '' @ vill @ asc '' '' @ [EN_DASH] @ asc '' ''
       @ (if paid then bestaetigt else unbestaetigt)"

text \<open>The team, village and label list of a record, with the defaults for missing keys.\<close>

definition raw_string :: "jval option \<Rightarrow> pystr" where
  "raw_string v = (case v of Some (JStr s) \<Rightarrow> s | _ \<Rightarrow> [])"

definition label_list :: "item \<Rightarrow> jval list" where
  "label_list it = (case label_names it of Some (LabelList xs) \<Rightarrow> xs | _ \<Rightarrow> [])"

text \<open>
  A record is well typed when its team and village, if present, are strings, and its
  labels, if present, are an array.
\<close>

definition well_typed :: "item \<Rightarrow> bool" where
  "well_typed it =
     (team_name it \<noteq> Some JOther \<and> village it \<noteq> Some JOther
      \<and> (case label_names it of None \<Rightarrow> True | Some (LabelList xs) \<Rightarrow> True | _ \<Rightarrow> False))"

definition row_of :: "int \<Rightarrow> item \<Rightarrow> sheet_row" where
  "row_of pos it =
     (pos,
      display_text (strip (raw_string (team_name it))) (strip (raw_string (village it)))
                   (JStr LABEL_PAID \<in> set (label_list it)),
      JStr LABEL_PAID \<in> set (label_list it))"

definition instant ::
  "(pystr \<Rightarrow> exn + datetime) \<Rightarrow> (int \<Rightarrow> exn + int) \<Rightarrow> item \<Rightarrow> int" where
  "instant fromisoformat local it =
     (case key_of fromisoformat local it of Inr k \<Rightarrow> k | Inl e \<Rightarrow> 0)"


section \<open>The two-record scenario\<close>

definition item_falken :: item where
  "item_falken =
     \<lparr>creation_date = Some (JStr (asc ''2024-01-02T10:00:00Z'')), cancellation_date = None,
      team_name = Some (JStr (asc ''Falken'')), village = Some (JStr (asc ''Spelle'')),
      label_names = Some (LabelList [])\<rparr>"

definition item_adler :: item where
  "item_adler =
     \<lparr>creation_date = Some (JStr (asc ''2024-01-01T09:00:00Z'')), cancellation_date = None,
      team_name = Some (JStr (asc ''Adler'')), village = Some (JStr (asc ''Beesten'')),
      label_names = Some (LabelList [JStr (asc ''Bezahlt'')])\<rparr>"

definition text_adler :: pystr where
  "text_adler = asc ''Adler aus Beesten '' @ [EN_DASH] @ asc '' '' @ bestaetigt"

definition text_falken :: pystr where
  "text_falken = asc ''Falken aus Spelle '' @ [EN_DASH] @ asc '' '' @ unbestaetigt"




section \<open>Fingerprint (campflow\_api.py, \<^verbatim>\<open>fingerprint\<close>)\<close>

text \<open>
  \<^verbatim>\<open>json.dumps(rows, separators=(",", ":"), sort_keys=True)\<close> on a list of
  \<open>(int, str, bool)\<close> tuples: a tuple is written as an array, an integer in decimal, a
  boolean as \<^verbatim>\<open>true\<close> or \<^verbatim>\<open>false\<close>, and a string between double quotes with the escapes
  of \<^verbatim>\<open>ensure_ascii\<close>: two-character escapes for the quote, the backslash and five control
  characters, the character itself from the space to the tilde, and four hexadecimal
  digits after \<^verbatim>\<open>\u\<close> for the rest, as a surrogate pair above U+FFFF.
\<close>

fun dec_nat :: "nat \<Rightarrow> pystr" where
  "dec_nat n = (if n < 10 then [48 + n] else dec_nat (n div 10) @ [48 + n mod 10])"

definition dumps_int :: "int \<Rightarrow> pystr" where
  "dumps_int i = (if i < 0 then 45 # dec_nat (nat (- i)) else dec_nat (nat i))"

definition hex_digit :: "nat \<Rightarrow> nat" where
  "hex_digit d = (if d < 10 then 48 + d else 87 + d)"

definition u_escape :: "nat \<Rightarrow> pystr" where
  "u_escape c =
     [92, 117, hex_digit (c div 4096 mod 16), hex_digit (c div 256 mod 16),
      hex_digit (c div 16 mod 16), hex_digit (c mod 16)]"

definition escape_char :: "nat \<Rightarrow> pystr" where
  "escape_char c =
     (if c = 34 then [92, 34]
      else if c = 92 then [92, 92]
      else if c = 10 then [92, 110]
      else if c = 13 then [92, 114]
      else if c = 9 then [92, 116]
      else if c = 8 then [92, 98]
      else if c = 12 then [92, 102]
      else if 32 \<le> c \<and> c \<le> 126 then [c]
      else if c < 65536 then u_escape c
      else u_escape (55296 + (c - 65536) div 1024) @ u_escape (56320 + (c - 65536) mod 1024))"

definition dumps_str :: "pystr \<Rightarrow> pystr" where
  "dumps_str s = [34] @ concat (map escape_char s) @ [34]"

definition dumps_row :: "sheet_row \<Rightarrow> pystr" where
  "dumps_row r =
     (case r of (pos, text, paid) \<Rightarrow>
        asc ''['' @ dumps_int pos @ asc '','' @ dumps_str text @ asc '',''
          @ (if paid then asc ''true'' else asc ''false'') @ asc '']'')"

fun join_comma :: "pystr list \<Rightarrow> pystr" where
  "join_comma [] = []"
| "join_comma [x] = x"
| "join_comma (x # y # ys) = x @ asc '','' @ join_comma (y # ys)"

definition json_dumps :: "sheet_row list \<Rightarrow> pystr" where
  "json_dumps rows = asc ''['' @ join_comma (map dumps_row rows) @ asc '']''"

text \<open>
  \<^verbatim>\<open>hashlib.sha256(text.encode()).hexdigest()\<close> belongs to the standard library; it is the
  parameter \<open>sha256\<close>, a function from the serialised text to the digest string.
\<close>

definition fingerprint :: "(pystr \<Rightarrow> pystr) \<Rightarrow> sheet_row list \<Rightarrow> pystr" where
  "fingerprint sha256 rows = sha256 (json_dumps rows)"

section \<open>Sync loop (main.py, lines 27 to 79)\<close>

text \<open>
  What the machine and the libraries contribute: the timestamp parser, the lookup of the
  local UTC offset, the digest, the integer parser, and the reserved capacity of the
  sheet handler.
\<close>

record config =
  cfg_fromiso :: "pystr \<Rightarrow> exn + datetime"
  cfg_local :: "int \<Rightarrow> exn + int"
  cfg_sha256 :: "pystr \<Rightarrow> pystr"
  cfg_int :: "pystr \<Rightarrow> int option"
  cfg_reserved :: int

text \<open>
  What the outside world does in one tick: the person list that the HTTP request
  delivers, or the exception that ends \<^verbatim>\<open>fetch_persons\<close> (raised by the request, by a
  payload without a person list, or by the CSV snapshot); the cell rows that the sheet
  returns or the exception of that request; and whether the value write and the colour
  write raise.
\<close>

record env =
  fetch_result :: "exn + item list"
  read_result :: "exn + pystr list list"
  write_result :: "exn option"
  colour_result :: "exn option"

text \<open>The requests sent to the sheet, in order.\<close>

datatype store_op = ReadSheet | BatchWrite "update list" | ColourRows "colour list"

text \<open>\<^verbatim>\<open>fetch_persons\<close>: the request, then the cancelled records are removed.\<close>

definition fetch_persons :: "env \<Rightarrow> exn + item list" where
  "fetch_persons e =
     (case fetch_result e of Inl x \<Rightarrow> Inl x | Inr ds \<Rightarrow> Inr (strip_cancellations ds))"

text \<open>
  \<^verbatim>\<open>_colour_rows\<close> and \<^verbatim>\<open>_batch_write\<close> return without a request on an empty list;
  \<^verbatim>\<open>apply_changes\<close> calls \<^verbatim>\<open>_batch_write\<close>, then \<^verbatim>\<open>_colour_rows\<close>. The result is the
  requests sent and the exception raised, if any.
\<close>

definition colour_rows :: "env \<Rightarrow> colour list \<Rightarrow> store_op list \<times> exn option" where
  "colour_rows e formats =
     (if formats = [] then ([], None) else ([ColourRows formats], colour_result e))"

definition apply_changes ::
  "env \<Rightarrow> update list \<Rightarrow> colour list \<Rightarrow> store_op list \<times> exn option" where
  "apply_changes e updates formats =
     (if updates = [] then colour_rows e formats
      else
        (case write_result e of
           Some x \<Rightarrow> ([BatchWrite updates], Some x)
         | None \<Rightarrow>
             (case colour_rows e formats of
                (ops, r) \<Rightarrow> (BatchWrite updates # ops, r))))"

text \<open>
  The body of the \<^verbatim>\<open>try\<close> block: the requests sent to the sheet, and either the exception
  that left the block or the value of \<^verbatim>\<open>last_fp\<close> at its end. \<^verbatim>\<open>last_fp\<close> is \<^verbatim>\<open>None\<close>
  before the first successful sync.
\<close>

definition tick_body ::
  "config \<Rightarrow> env \<Rightarrow> pystr option \<Rightarrow> store_op list \<times> (exn + pystr option)" where
  "tick_body cfg e last_fp =
     (case fetch_persons e of
        Inl x \<Rightarrow> ([], Inl x)
      | Inr items \<Rightarrow>
          (case make_rows (cfg_fromiso cfg) (cfg_local cfg) items of
             Inl x \<Rightarrow> ([], Inl x)
           | Inr rows \<Rightarrow>
               (let fp = fingerprint (cfg_sha256 cfg) rows in
                if Some fp = last_fp then ([], Inr last_fp)
                else
                  (case read_result e of
                     Inl x \<Rightarrow> ([ReadSheet], Inl x)
                   | Inr values \<Rightarrow>
                       (let current = read_sheet (cfg_int cfg) (cfg_reserved cfg) values in
                        case reconcile (cfg_reserved cfg) current rows of
                          (updates, formats) \<Rightarrow>
                            (case apply_changes e updates formats of
                               (ops, Some x) \<Rightarrow> (ReadSheet # ops, Inl x)
                             | (ops, None) \<Rightarrow> (ReadSheet # ops, Inr (Some fp))))))))"

text \<open>
  One iteration of \<^verbatim>\<open>while True\<close>: \<^verbatim>\<open>except Exception\<close> prints the exception and goes on
  with the old \<^verbatim>\<open>last_fp\<close>. The result is the new \<^verbatim>\<open>last_fp\<close>, the requests sent to the
  sheet and the exception printed, if any.
\<close>

definition tick :: "config \<Rightarrow> env \<Rightarrow> pystr option \<Rightarrow> pystr option \<times> store_op list \<times> exn option" where
  "tick cfg e last_fp =
     (case tick_body cfg e last_fp of
        (ops, Inl x) \<Rightarrow> (last_fp, ops, Some x)
      | (ops, Inr fp) \<Rightarrow> (fp, ops, None))"

text \<open>
  The loop never ends by itself; \<open>main_loop\<close> runs it for the ticks whose outside world is
  given, and returns the last \<^verbatim>\<open>last_fp\<close> and, per tick, the requests and the exception.
\<close>

fun main_loop ::
  "config \<Rightarrow> env list \<Rightarrow> pystr option \<Rightarrow> (store_op list \<times> exn option) list
     \<Rightarrow> pystr option \<times> (store_op list \<times> exn option) list" where
  "main_loop cfg [] last_fp log = (last_fp, log)"
| "main_loop cfg (e # es) last_fp log =
     (case tick cfg e last_fp of
        (fp, ops, err) \<Rightarrow> main_loop cfg es fp (log @ [(ops, err)]))"

definition main :: "config \<Rightarrow> env list \<Rightarrow> pystr option \<times> (store_op list \<times> exn option) list" where
  "main cfg es = main_loop cfg es None []"

section \<open>Example configuration and ticks\<close>

text \<open>
  The parser of the documented format, a machine on UTC, a stand-in digest (the
  serialised text itself), an integer parser that rejects everything, and the default
  capacity.
\<close>

definition cfg0 :: config where
  "cfg0 = \<lparr>cfg_fromiso = fromisoformat_documented, cfg_local = (\<lambda>w. Inr 0),
            cfg_sha256 = (\<lambda>s. s), cfg_int = (\<lambda>s. None),
            cfg_reserved = reserved_default\<rparr>"

definition env_ok :: env where
  "env_ok = \<lparr>fetch_result = Inr [item_falken, item_adler], read_result = Inr [],
              write_result = None, colour_result = None\<rparr>"

definition fp_scenario :: pystr where
  "fp_scenario = json_dumps [(1, text_adler, True), (2, text_falken, False)]"

text \<open>A record whose creation timestamp is no timestamp, and a tick that fetches it.\<close>

definition item_bad :: item where
  "item_bad =
     \<lparr>creation_date = Some (JStr (asc ''yesterday'')), cancellation_date = None,
      team_name = Some (JStr (asc ''Bussard'')), village = Some (JStr (asc ''Lingen'')),
      label_names = Some (LabelList [])\<rparr>"

definition env_bad :: env where
  "env_bad = \<lparr>fetch_result = Inr [item_adler, item_bad], read_result = Inr [],
               write_result = None, colour_result = None\<rparr>"

section \<open>Timestamps with a time of day, as data\<close>

text \<open>
  The timestamps for which the normalisation is verified, described by their fields:
  a date, a separator character, hours and minutes, optionally seconds and a fraction of
  three or six digits, and then the letter Z, nothing, or an offset \<open>+HH:MM\<close> or \<open>-HH:MM\<close>.
  \<open>pad k n\<close> writes \<open>n\<close> with \<open>k\<close> decimal digits.
\<close>

fun pad :: "nat \<Rightarrow> nat \<Rightarrow> pystr" where
  "pad 0 n = []"
| "pad (Suc k) n = pad k (n div 10) @ [48 + n mod 10]"

datatype precision = Minutes | Seconds nat | Millis nat nat | Micros nat nat

datatype zone = Zulu | Bare | East nat nat | West nat nat

record stamp =
  st_year :: nat
  st_month :: nat
  st_day :: nat
  st_sep :: nat
  st_hour :: nat
  st_minute :: nat
  st_prec :: precision
  st_zone :: zone

fun prec_second :: "precision \<Rightarrow> nat" where
  "prec_second Minutes = 0"
| "prec_second (Seconds s) = s"
| "prec_second (Millis s f) = s"
| "prec_second (Micros s f) = s"

fun prec_micro :: "precision \<Rightarrow> nat" where
  "prec_micro Minutes = 0"
| "prec_micro (Seconds s) = 0"
| "prec_micro (Millis s f) = f * 1000"
| "prec_micro (Micros s f) = f"

fun prec_ok :: "precision \<Rightarrow> bool" where
  "prec_ok Minutes = True"
| "prec_ok (Seconds s) = (s < 60)"
| "prec_ok (Millis s f) = (s < 60 \<and> f < 1000)"
| "prec_ok (Micros s f) = (s < 60 \<and> f < 1000000)"

fun render_prec :: "precision \<Rightarrow> pystr" where
  "render_prec Minutes = []"
| "render_prec (Seconds s) = 58 # pad 2 s"
| "render_prec (Millis s f) = 58 # pad 2 s @ 46 # pad 3 f"
| "render_prec (Micros s f) = 58 # pad 2 s @ 46 # pad 6 f"

fun render_zone :: "zone \<Rightarrow> pystr" where
  "render_zone Zulu = [90]"
| "render_zone Bare = []"
| "render_zone (East h m) = 43 # pad 2 h @ 58 # pad 2 m"
| "render_zone (West h m) = 45 # pad 2 h @ 58 # pad 2 m"

text \<open>The offset from UTC in microseconds that the zone part denotes.\<close>

fun zone_offset :: "zone \<Rightarrow> int" where
  "zone_offset Zulu = 0"
| "zone_offset Bare = 0"
| "zone_offset (East h m) = (int h * 3600 + int m * 60) * 1000000"
| "zone_offset (West h m) = - ((int h * 3600 + int m * 60) * 1000000)"

fun zone_ok :: "zone \<Rightarrow> bool" where
  "zone_ok Zulu = True"
| "zone_ok Bare = True"
| "zone_ok (East h m) = (h < 100 \<and> m < 100 \<and> h * 60 + m < 1440)"
| "zone_ok (West h m) = (h < 100 \<and> m < 100 \<and> h * 60 + m < 1440)"

definition render_time :: "stamp \<Rightarrow> pystr" where
  "render_time st = pad 2 (st_hour st) @ 58 # pad 2 (st_minute st) @ render_prec (st_prec st)"

definition render_stamp :: "stamp \<Rightarrow> pystr" where
  "render_stamp st =
     pad 4 (st_year st) @ 45 # pad 2 (st_month st) @ 45 # pad 2 (st_day st)
       @ st_sep st # render_time st @ render_zone (st_zone st)"

definition stamp_ok :: "stamp \<Rightarrow> bool" where
  "stamp_ok st =
     (1 \<le> st_year st \<and> st_year st \<le> 9999 \<and> 1 \<le> st_month st \<and> st_month st \<le> 12
      \<and> 1 \<le> st_day st \<and> st_day st \<le> days_in_month (st_year st) (st_month st)
      \<and> \<not> is_sign (st_sep st)
      \<and> st_hour st < 24 \<and> st_minute st < 60 \<and> prec_ok (st_prec st) \<and> zone_ok (st_zone st))"

text \<open>
  The UTC instant that the timestamp denotes, in microseconds on the scale of
  \<open>wall_clock\<close>: its wall-clock reading minus its offset, where Z and no offset mean UTC.
\<close>

definition stamp_instant :: "stamp \<Rightarrow> int" where
  "stamp_instant st =
     (((int (ordinal (st_year st) (st_month st) (st_day st)) * 24 + int (st_hour st)) * 60
         + int (st_minute st)) * 60 + int (prec_second (st_prec st))) * 1000000
       + int (prec_micro (st_prec st))
       - zone_offset (st_zone st)"

text \<open>
  Two timestamps for the same instant, half past eight UTC on the first day of 2024: one
  with an offset of two hours, one with the letter Z.
\<close>

definition stamp_east :: stamp where
  "stamp_east =
     \<lparr>st_year = 2024, st_month = 1, st_day = 1, st_sep = 84, st_hour = 10, st_minute = 30,
      st_prec = Seconds 0, st_zone = East 2 0\<rparr>"

definition stamp_zulu :: stamp where
  "stamp_zulu =
     \<lparr>st_year = 2024, st_month = 1, st_day = 1, st_sep = 84, st_hour = 8, st_minute = 30,
      st_prec = Seconds 0, st_zone = Zulu\<rparr>"

section \<open>Properties of the position mapper\<close>

lemma row_for_position_inj: "inj (row_for_position r)"
  by (rule injI) (simp add: row_for_position_def split: if_splits)

text \<open>
  Claim C4. With the default reserved capacity 72, a position between 1 and 72 is mapped
  to \<open>pos + 1\<close> and a position above 72 to \<open>pos + 4\<close>; the mapping is injective on
  \<open>1..maxPos\<close> for every \<open>maxPos\<close>, no position is mapped into the separator rows 74 to 76,
  position 72 goes to row 73 and position 73 to row 77.
\<close>

theorem row_for_position_layout:
  "(\<forall>pos. 1 \<le> pos \<and> pos \<le> 72 \<longrightarrow> row_for_position reserved_default pos = pos + 1)
   \<and> (\<forall>pos. 72 < pos \<longrightarrow> row_for_position reserved_default pos = pos + 4)
   \<and> (\<forall>maxPos. inj_on (row_for_position reserved_default) {1..maxPos})
   \<and> (\<forall>pos. row_for_position reserved_default pos \<notin> {74..76})
   \<and> row_for_position reserved_default 72 = 73
   \<and> row_for_position reserved_default 73 = 77"
proof -
  have inj: "\<forall>maxPos. inj_on (row_for_position reserved_default) {1..maxPos}"
    using row_for_position_inj [of reserved_default] by (blast intro: inj_on_subset)
  have rest: "(\<forall>pos. 1 \<le> pos \<and> pos \<le> 72 \<longrightarrow> row_for_position reserved_default pos = pos + 1)
    \<and> (\<forall>pos. 72 < pos \<longrightarrow> row_for_position reserved_default pos = pos + 4)
    \<and> (\<forall>pos. row_for_position reserved_default pos \<notin> {74..76})
    \<and> row_for_position reserved_default 72 = 73
    \<and> row_for_position reserved_default 73 = 77"
    by (simp add: row_for_position_def reserved_default_def)
  from inj rest show ?thesis by blast
qed

theorem row_for_position_layout_witness:
  "(1::int) \<le> 5 \<and> (5::int) \<le> 72 \<and> row_for_position reserved_default 5 = 6
   \<and> (72::int) < 100 \<and> row_for_position reserved_default 100 = 104
   \<and> inj_on (row_for_position reserved_default) {1..200}
   \<and> row_for_position reserved_default 72 = 73
   \<and> row_for_position reserved_default 73 = 77"
  using row_for_position_layout by simp

section \<open>Properties of the reconciler\<close>

lemma upsert_loop_eq:
  "upsert_loop reserved current rows (u, f, s) =
     (u @ concat (map (upd_of reserved current) rows),
      f @ map (colour_of reserved) rows,
      s \<union> teams_of rows)"
  by (induction rows arbitrary: u f s)
     (auto simp: upd_of_def colour_of_def needs_write_def teams_of_def Let_def split: option.splits)

lemma clear_loop_eq:
  "clear_loop current seen (u, f) =
     (u @ map (\<lambda>(team, m). (meta_row m, BLANK)) (filter (\<lambda>(team, m). team \<notin> seen) current),
      f @ map (\<lambda>(team, m). (meta_row m, None)) (filter (\<lambda>(team, m). team \<notin> seen) current))"
  by (induction current arbitrary: u f) auto

lemma reconcile_eq:
  "reconcile reserved current rows =
     (concat (map (upd_of reserved current) rows)
        @ map (\<lambda>(team, m). (meta_row m, BLANK)) (gone current rows),
      map (colour_of reserved) rows
        @ map (\<lambda>(team, m). (meta_row m, None)) (gone current rows))"
  by (simp add: reconcile_def upsert_loop_eq clear_loop_eq gone_def)

lemma upd_of_mem:
  "(r, [IntCell pos, StrCell text]) \<in> set (concat (map (upd_of reserved current) rows))
     \<longleftrightarrow> r = row_for_position reserved pos \<and> needs_write current text
          \<and> (\<exists>paid. (pos, text, paid) \<in> set rows)"
  by (auto simp: upd_of_def split: if_splits)

lemma blank_not_written: "(r, [IntCell pos, StrCell text]) \<notin> set (map (\<lambda>(team, m). (meta_row m, BLANK)) xs)"
  by (auto simp: BLANK_def)

text \<open>
  Claim C1. For every row \<open>(pos, text, paid)\<close> of the row set, the update that carries this
  row, \<open>(row_for_position pos, [pos, text])\<close>, is in the update list if and only if the
  row's team is not a key of the store, or it is and the stored text differs from the
  row's text. So a team that is present with the same text gets no update.
\<close>

theorem update_iff_new_or_changed:
  "\<forall>(pos, text, paid) \<in> set rows.
     (row_for_position reserved pos, [IntCell pos, StrCell text])
         \<in> set (fst (reconcile reserved current rows))
     \<longleftrightarrow> (map_of current (team_of text) = None
          \<or> (\<exists>m. map_of current (team_of text) = Some m \<and> meta_text m \<noteq> text))"
proof -
  have nw: "needs_write current t \<longleftrightarrow> (map_of current (team_of t) = None
          \<or> (\<exists>m. map_of current (team_of t) = Some m \<and> meta_text m \<noteq> t))" for t
    by (simp add: needs_write_def split: option.splits)
  show ?thesis
    unfolding reconcile_eq fst_conv set_append Un_iff upd_of_mem nw [symmetric]
    using blank_not_written by (auto simp del: set_map set_concat)
qed


lemma team_of_A: "team_of text_A = asc ''A''"
  by (simp add: text_A_def team_of_def AUS_def asc_def startswith_def)

lemma team_of_C: "team_of text_C = asc ''C''"
  by (simp add: text_C_def team_of_def AUS_def asc_def startswith_def)

lemma asc_A_neq_C: "asc ''C'' \<noteq> asc ''A''" "asc ''C'' \<noteq> asc ''B''"
  by (simp_all add: asc_def)

theorem update_iff_new_or_changed_witness:
  "(row_for_position 72 1, [IntCell 1, StrCell text_A])
      \<notin> set (fst (reconcile 72 store_AB rows_AC))
   \<and> (row_for_position 72 2, [IntCell 2, StrCell text_C])
      \<in> set (fst (reconcile 72 store_AB rows_AC))"
  using update_iff_new_or_changed [of rows_AC 72 store_AB]
  by (simp add: rows_AC_def store_AB_def team_of_A team_of_C asc_A_neq_C)

lemma count_filter_row:
  "distinct (map (meta_row \<circ> snd) xs) \<Longrightarrow> (t, m) \<in> set xs \<Longrightarrow>
   count_list (map (\<lambda>(team, m). (meta_row m, c)) (filter P xs)) (meta_row m, c)
     = (if P (t, m) then 1 else 0)"
proof (induction xs)
  case Nil
  then show ?case by simp
next
  case (Cons x xs)
  obtain t' m' where x: "x = (t', m')" by (cases x)
  show ?case
  proof (cases "x = (t, m)")
    case True
    with Cons.prems have "meta_row m \<notin> (meta_row \<circ> snd) ` set (filter P xs)"
      by auto
    then have "(meta_row m, c) \<notin> set (map (\<lambda>(team, m). (meta_row m, c)) (filter P xs))"
      by force
    then have "count_list (map (\<lambda>(team, m). (meta_row m, c)) (filter P xs)) (meta_row m, c) = 0"
      by (simp add: count_list_0_iff)
    with True show ?thesis by simp
  next
    case False
    with Cons.prems have mem: "(t, m) \<in> set xs" by simp
    with Cons.prems x have "meta_row m' \<noteq> meta_row m" by force
    with Cons.IH Cons.prems mem x show ?thesis by simp
  qed
qed

lemma blank_not_in_upserts: "(r, BLANK) \<notin> set (concat (map (upd_of reserved current) rows))"
  by (auto simp: upd_of_def BLANK_def split: if_splits)

lemma none_not_in_colours: "(r, None) \<notin> set (map (colour_of reserved) rows)"
  by (auto simp: colour_of_def)

lemma count_upserts_blank: "count_list (concat (map (upd_of reserved current) rows)) (r, BLANK) = 0"
  unfolding count_list_0_iff by (rule blank_not_in_upserts)

lemma count_colours_none: "count_list (map (colour_of reserved) rows) (r, None) = 0"
  unfolding count_list_0_iff by (rule none_not_in_colours)

text \<open>
  Claim C2. In a store whose entries lie on different sheet rows, every entry whose team
  is not a team of the row set gets exactly one blanking update \<open>(row, ["", ""])\<close> and
  exactly one neutral colour instruction \<open>(row, None)\<close> at its stored row; an entry whose
  team is in the row set gets neither; and for the empty row set the output is one
  blanking update and one neutral colour instruction per store entry, in store order.
\<close>

theorem disappeared_teams_blanked:
  assumes rows_distinct: "distinct (map (meta_row \<circ> snd) current)"
  shows "(\<forall>(team, m) \<in> set current. team \<notin> teams_of rows \<longrightarrow>
            count_list (fst (reconcile reserved current rows)) (meta_row m, BLANK) = 1
          \<and> count_list (snd (reconcile reserved current rows)) (meta_row m, None) = 1)
       \<and> (\<forall>(team, m) \<in> set current. team \<in> teams_of rows \<longrightarrow>
            count_list (fst (reconcile reserved current rows)) (meta_row m, BLANK) = 0
          \<and> count_list (snd (reconcile reserved current rows)) (meta_row m, None) = 0)
       \<and> reconcile reserved current [] =
            (map (\<lambda>(team, m). (meta_row m, BLANK)) current,
             map (\<lambda>(team, m). (meta_row m, None)) current)"
proof -
  have cnt: "count_list (fst (reconcile reserved current rows)) (meta_row m, BLANK)
               = (if t \<notin> teams_of rows then 1 else 0)
           \<and> count_list (snd (reconcile reserved current rows)) (meta_row m, None)
               = (if t \<notin> teams_of rows then 1 else 0)"
    if "(t, m) \<in> set current" for t m
    using count_filter_row [OF rows_distinct that, of BLANK "\<lambda>(team, m). team \<notin> teams_of rows"]
          count_filter_row [OF rows_distinct that, of None "\<lambda>(team, m). team \<notin> teams_of rows"]
    by (simp add: reconcile_eq gone_def count_upserts_blank count_colours_none)
  have empty: "reconcile reserved current [] =
            (map (\<lambda>(team, m). (meta_row m, BLANK)) current,
             map (\<lambda>(team, m). (meta_row m, None)) current)"
    by (simp add: reconcile_eq gone_def teams_of_def)
  from cnt empty show ?thesis by auto
qed

theorem disappeared_teams_blanked_witness:
  "count_list (fst (reconcile 72 store_AB rows_AC)) (6, BLANK) = 1
   \<and> count_list (snd (reconcile 72 store_AB rows_AC)) (6, None) = 1
   \<and> count_list (fst (reconcile 72 store_AB rows_AC)) (5, BLANK) = 0
   \<and> count_list (snd (reconcile 72 store_AB rows_AC)) (5, None) = 0"
proof -
  have d: "distinct (map (meta_row \<circ> snd) store_AB)"
    by (simp add: store_AB_def)
  have t: "teams_of rows_AC = {asc ''A'', asc ''C''}"
    by (simp add: teams_of_def rows_AC_def team_of_A team_of_C)
  show ?thesis
    using disappeared_teams_blanked [OF d, of rows_AC 72]
    by (simp add: t store_AB_def asc_def)
qed

text \<open>
  Claim C3. When the store already has, for the team of every row, an entry whose text is
  the row's text, and the store's keys are exactly the teams of the row set, the
  reconciler produces no update at all, and its colour list is one instruction per row,
  in row order, with the row's sheet row and paid flag: \<open>N\<close> instructions for \<open>N\<close> rows.
\<close>

theorem second_run_no_updates:
  assumes same: "\<forall>(pos, text, paid) \<in> set rows.
                   \<exists>m. map_of current (team_of text) = Some m \<and> meta_text m = text"
      and keys: "fst ` set current = teams_of rows"
  shows "fst (reconcile reserved current rows) = []
       \<and> snd (reconcile reserved current rows)
           = map (\<lambda>(pos, text, paid). (row_for_position reserved pos, Some paid)) rows
       \<and> length (snd (reconcile reserved current rows)) = length rows"
proof -
  have "upd_of reserved current r = []" if "r \<in> set rows" for r
    using same that by (cases r) (auto simp: upd_of_def needs_write_def)
  then have u: "concat (map (upd_of reserved current) rows) = []"
    by simp
  have "t \<in> teams_of rows" if "(t, m) \<in> set current" for t m
    using keys that by force
  then have g: "gone current rows = []"
    by (auto simp: gone_def filter_empty_conv)
  have c: "colour_of reserved = (\<lambda>(pos, text, paid). (row_for_position reserved pos, Some paid))"
    by (auto simp: colour_of_def fun_eq_iff)
  show ?thesis
    by (simp add: reconcile_eq u g c)
qed

theorem second_run_no_updates_witness:
  "fst (reconcile 72 store_A rows_A) = []
   \<and> snd (reconcile 72 store_A rows_A) = [(2, Some True)]"
proof -
  have same: "\<forall>(pos, text, paid) \<in> set rows_A.
                   \<exists>m. map_of store_A (team_of text) = Some m \<and> meta_text m = text"
    by (simp add: rows_A_def store_A_def team_of_A)
  have keys: "fst ` set store_A = teams_of rows_A"
    by (simp add: rows_A_def store_A_def teams_of_def team_of_A)
  show ?thesis
    using second_run_no_updates [OF same keys, of 72]
    by (simp add: rows_A_def row_for_position_def)
qed

section \<open>Properties of the row builder\<close>

lemma get_stripped_typed:
  "v \<noteq> Some JOther \<Longrightarrow> get_stripped v = Inr (strip (raw_string v))"
  by (simp add: get_stripped_def raw_string_def split: option.splits jval.splits)

lemma label_paid_in_typed:
  "well_typed it \<Longrightarrow> label_paid_in (label_names it) = Inr (JStr LABEL_PAID \<in> set (label_list it))"
  by (simp add: well_typed_def label_paid_in_def label_list_def split: option.splits jlabels.splits)

lemma rows_loop_eq:
  "\<forall>it \<in> set its. well_typed it \<Longrightarrow>
   rows_loop pos its rows
     = Inr (rows @ map (\<lambda>i. row_of (pos + int i) (its ! i)) [0..<length its])"
proof (induction its arbitrary: pos rows)
  case Nil
  then show ?case by simp
next
  case (Cons it its)
  have "map (\<lambda>i. row_of (pos + int i) ((it # its) ! i)) [0..<length (it # its)]
          = row_of pos it # map (\<lambda>i. row_of (pos + 1 + int i) (its ! i)) [0..<length its]"
    by (simp add: upt_conv_Cons map_Suc_upt [symmetric] del: upt_Suc) (simp add: add.commute add.left_commute)
  moreover from Cons.prems have wt: "well_typed it" and rest: "\<forall>it \<in> set its. well_typed it"
    by simp_all
  moreover from wt have "team_name it \<noteq> Some JOther" "village it \<noteq> Some JOther"
    by (simp_all add: well_typed_def)
  ultimately show ?case
    by (simp add: Cons.IH [OF rest] Let_def row_of_def display_text_def
        get_stripped_typed label_paid_in_typed [OF wt])
qed

lemma rows_loop_texts:
  "rows_loop pos its acc = Inr rows \<Longrightarrow> r \<in> set rows \<Longrightarrow>
   r \<in> set acc \<or> (\<exists>p t v b. r = (p, display_text t v b, b))"
proof (induction its arbitrary: pos acc)
  case Nil
  then show ?case by simp
next
  case (Cons it its)
  from Cons.prems(1) obtain t v b where
    "rows_loop (pos + 1) its (acc @ [(pos, display_text t v b, b)]) = Inr rows"
    by (auto simp: display_text_def Let_def split: sum.splits)
  from Cons.IH [OF this Cons.prems(2)] show ?case by auto
qed

lemma sort_keys_wf:
  "\<forall>it \<in> set items. \<exists>k. key_of parse local it = Inr k \<Longrightarrow>
   sort_keys parse local items = Inr (map (instant parse local) items)"
  by (induction items) (auto simp: instant_def)

lemma insort_key_map:
  "insort_key k (g x) (map g ys) = map g (insort_key (\<lambda>y. k (g y)) x ys)"
  by (induction ys) auto

lemma sort_key_map: "sort_key k (map g xs) = map g (sort_key (\<lambda>y. k (g y)) xs)"
  by (induction xs) (simp_all add: insort_key_map)

lemma decorated_sort: "map snd (sort_key fst (zip (map f xs) xs)) = sort_key f xs"
proof -
  have z: "zip (map f xs) xs = map (\<lambda>x. (f x, x)) xs"
    by (induction xs) auto
  show ?thesis
    by (simp add: z sort_key_map comp_def)
qed

lemma make_rows_wf:
  assumes "\<forall>it \<in> set items. \<exists>k. key_of parse local it = Inr k"
      and "\<forall>it \<in> set items. well_typed it"
  shows "make_rows parse local items =
           Inr (map (\<lambda>i. row_of (1 + int i) (sort_key (instant parse local) items ! i))
                    [0..<length items])"
proof -
  from assms(2) have "\<forall>it \<in> set (sort_key (instant parse local) items). well_typed it"
    by simp
  then show ?thesis
    by (simp add: make_rows_def sort_keys_wf [OF assms(1)] decorated_sort rows_loop_eq)
qed


lemma is_paid_display: "is_paid (display_text t v p) = p"
proof -
  have e: "endswith (xs @ ys) q \<longleftrightarrow> ys = q" if "length q = length ys" for xs ys q :: pystr
    using that by (simp add: endswith_def)
  have "display_text t v True = (t @ asc '' aus '' @ v @ asc '' '') @ ([EN_DASH] @ asc '' '' @ bestaetigt)"
    by (simp add: display_text_def)
  then have T: "is_paid (display_text t v True)"
    unfolding is_paid_def by (simp only: e [OF refl] simp_thms)
  have "display_text t v False = (t @ asc '' aus '' @ v @ asc '' '' @ [EN_DASH] @ asc '' '') @ unbestaetigt"
    by (simp add: display_text_def)
  moreover have "length ([EN_DASH] @ asc '' '' @ bestaetigt) = length unbestaetigt"
       "length (asc ''- '' @ bestaetigt) = length unbestaetigt"
       "unbestaetigt \<noteq> [EN_DASH] @ asc '' '' @ bestaetigt"
       "unbestaetigt \<noteq> asc ''- '' @ bestaetigt"
    by (simp_all add: unbestaetigt_def bestaetigt_def asc_def EN_DASH_def)
  ultimately have F: "\<not> is_paid (display_text t v False)"
    unfolding is_paid_def by (simp only: e simp_thms not_False_eq_True)
  from T F show ?thesis by (cases p) simp_all
qed

text \<open>
  Claim C10. Whatever the team and village strings are, the paid parser of the sheet
  reader, applied to the text of a row that \<open>make_rows\<close> produced, returns that row's paid
  flag.
\<close>

theorem is_paid_reads_back_paid:
  assumes "make_rows fromisoformat local items = Inr rows" and "(pos, txt, paid) \<in> set rows"
  shows "is_paid txt = paid"
proof -
  from assms(1) obtain ordered where "rows_loop 1 ordered [] = Inr rows"
    by (auto simp: make_rows_def Let_def split: sum.splits)
  from rows_loop_texts [OF this assms(2)]
  obtain p t v b where "(pos, txt, paid) = (p, display_text t v b, b)"
    by auto
  then show ?thesis
    by (simp add: is_paid_display)
qed

lemmas dt_defs = to_dt_def asc_def endswith_def UTC_SUFFIX_def fromisoformat_documented_def
     field_def digit_def parse_hms_def is_sign_def parse_offset_def days_in_month_def is_leap_def
     astimezone_utc_def in_range_def wall_clock_def ordinal_def days_before_year_def
     days_before_month_def MIN_INSTANT_def MAX_INSTANT_def last6_def Let_def

lemma key_falken: "key_of fromisoformat_documented local item_falken = Inr 63839872800000000"
  by (simp add: key_of_def item_falken_def dt_defs)

lemma key_adler: "key_of fromisoformat_documented local item_adler = Inr 63839782800000000"
  by (simp add: key_of_def item_adler_def dt_defs)

lemma scenario_typed: "well_typed item_falken" "well_typed item_adler"
  by (simp_all add: well_typed_def item_falken_def item_adler_def)

lemma scenario_rows:
  "make_rows fromisoformat_documented local [item_falken, item_adler]
     = Inr [(1, text_adler, True), (2, text_falken, False)]"
proof -
  have wf: "\<forall>it \<in> set [item_falken, item_adler]. \<exists>k. key_of fromisoformat_documented local it = Inr k"
    by (simp add: key_falken key_adler)
  have wt: "\<forall>it \<in> set [item_falken, item_adler]. well_typed it"
    by (simp add: scenario_typed)
  have s: "sort_key (instant fromisoformat_documented local) [item_falken, item_adler]
             = [item_adler, item_falken]"
    by (simp add: instant_def key_falken key_adler)
  have a: "row_of 1 item_adler = (1, text_adler, True)"
    by (simp add: row_of_def item_adler_def raw_string_def label_list_def LABEL_PAID_def
        display_text_def text_adler_def strip_def isspace_def asc_def)
  have f: "row_of 2 item_falken = (2, text_falken, False)"
    by (simp add: row_of_def item_falken_def raw_string_def label_list_def LABEL_PAID_def
        display_text_def text_falken_def strip_def isspace_def asc_def)
  show ?thesis
    unfolding make_rows_wf [OF wf wt] s by (simp add: upt_rec a f)
qed

text \<open>The scenario's two rows are read back with their paid flags.\<close>

theorem is_paid_reads_back_paid_witness:
  "is_paid text_adler = True \<and> is_paid text_falken = False"
  using is_paid_reads_back_paid [OF scenario_rows, of 1 text_adler True]
        is_paid_reads_back_paid [OF scenario_rows, of 2 text_falken False]
  by simp

section \<open>Order, positions and rendering of the rows\<close>









section \<open>Properties of the fingerprint\<close>

text \<open>
  Claim C8. Two row sets with the same length and the same \<open>(position, text, paid)\<close> tuple
  at every index have the same fingerprint, whatever the digest function is.
\<close>

theorem fingerprint_deterministic:
  assumes "length R1 = length R2" and "\<forall>i < length R1. R1 ! i = R2 ! i"
  shows "fingerprint sha256 R1 = fingerprint sha256 R2"
proof -
  from assms have "R1 = R2" by (simp add: nth_equalityI)
  then show ?thesis by simp
qed


theorem fingerprint_deterministic_witness:
  "fingerprint (\<lambda>s. s) [(1, text_adler, True)] = fingerprint (\<lambda>s. s) ([] @ [(1, text_adler, True)])"
  using fingerprint_deterministic [of "[(1, text_adler, True)]" "[] @ [(1, text_adler, True)]" "\<lambda>s. s"]
  by simp

section \<open>Properties of the sync loop\<close>

lemma tick_cases:
  "(fetch_result e = Inl x \<longrightarrow> tick cfg e last_fp = (last_fp, [], Some x))
 \<and> (fetch_result e = Inr ds \<longrightarrow>
      (make_rows (cfg_fromiso cfg) (cfg_local cfg) (strip_cancellations ds) = Inl x \<longrightarrow>
         tick cfg e last_fp = (last_fp, [], Some x))
    \<and> (make_rows (cfg_fromiso cfg) (cfg_local cfg) (strip_cancellations ds) = Inr rows \<longrightarrow>
         (Some (fingerprint (cfg_sha256 cfg) rows) = last_fp \<longrightarrow>
            tick cfg e last_fp = (last_fp, [], None))
       \<and> (Some (fingerprint (cfg_sha256 cfg) rows) \<noteq> last_fp \<longrightarrow>
            (read_result e = Inl x \<longrightarrow> tick cfg e last_fp = (last_fp, [ReadSheet], Some x))
          \<and> (read_result e = Inr cells \<longrightarrow>
               (let out = reconcile (cfg_reserved cfg)
                            (read_sheet (cfg_int cfg) (cfg_reserved cfg) cells) rows;
                    res = apply_changes e (fst out) (snd out)
                in (snd res = Some x \<longrightarrow>
                      tick cfg e last_fp = (last_fp, ReadSheet # fst res, Some x))
                 \<and> (snd res = None \<longrightarrow>
                      tick cfg e last_fp
                        = (Some (fingerprint (cfg_sha256 cfg) rows), ReadSheet # fst res, None)))))))"
  by (auto simp: tick_def tick_body_def fetch_persons_def Let_def split: prod.splits sum.splits option.splits)

lemma main_loop_length: "length (snd (main_loop cfg es fp log)) = length log + length es"
  by (induction es arbitrary: fp log) (auto split: prod.splits)

lemma tick_err_unchanged: "tick cfg e last_fp = (fp, ops, Some x) \<Longrightarrow> fp = last_fp"
  by (auto simp: tick_def split: prod.splits sum.splits)

text \<open>
  Claim C7. One tick, case by case. An exception of the fetch, of the row builder, of the
  sheet read or of the apply leaves \<open>last_fp\<close> as it was; the fetch and the row builder
  fail before any request to the sheet. When the new fingerprint equals \<open>last_fp\<close>, the
  tick sends no request to the sheet, neither read nor write. \<open>last_fp\<close> becomes the new
  fingerprint exactly in the last case, where the read and both writes of the apply went
  through. Whenever the tick printed an exception, \<open>last_fp\<close> is unchanged. The loop runs
  every tick it is given, whatever happened in the ticks before.
\<close>

theorem last_fp_set_only_after_apply:
  "(fetch_result e = Inl x \<longrightarrow> tick cfg e last_fp = (last_fp, [], Some x))
 \<and> (fetch_result e = Inr ds \<longrightarrow>
      (make_rows (cfg_fromiso cfg) (cfg_local cfg) (strip_cancellations ds) = Inl x \<longrightarrow>
         tick cfg e last_fp = (last_fp, [], Some x))
    \<and> (make_rows (cfg_fromiso cfg) (cfg_local cfg) (strip_cancellations ds) = Inr rows \<longrightarrow>
         (Some (fingerprint (cfg_sha256 cfg) rows) = last_fp \<longrightarrow>
            tick cfg e last_fp = (last_fp, [], None))
       \<and> (Some (fingerprint (cfg_sha256 cfg) rows) \<noteq> last_fp \<longrightarrow>
            (read_result e = Inl x \<longrightarrow> tick cfg e last_fp = (last_fp, [ReadSheet], Some x))
          \<and> (read_result e = Inr cells \<longrightarrow>
               (let out = reconcile (cfg_reserved cfg)
                            (read_sheet (cfg_int cfg) (cfg_reserved cfg) cells) rows;
                    res = apply_changes e (fst out) (snd out)
                in (snd res = Some x \<longrightarrow>
                      tick cfg e last_fp = (last_fp, ReadSheet # fst res, Some x))
                 \<and> (snd res = None \<longrightarrow>
                      tick cfg e last_fp
                        = (Some (fingerprint (cfg_sha256 cfg) rows), ReadSheet # fst res, None)))))))
 \<and> (\<forall>fp ops y. tick cfg e last_fp = (fp, ops, Some y) \<longrightarrow> fp = last_fp)
 \<and> length (snd (main cfg es)) = length es"
proof -
  have "\<forall>fp ops y. tick cfg e last_fp = (fp, ops, Some y) \<longrightarrow> fp = last_fp"
    using tick_err_unchanged by blast
  moreover have "length (snd (main cfg es)) = length es"
    by (simp add: main_def main_loop_length)
  ultimately show ?thesis
    using tick_cases [of e x cfg last_fp ds rows cells] by blast
qed

lemma not_cancelled: "\<not> cancelled item_falken" "\<not> cancelled item_adler"
  by (simp_all add: cancelled_def item_falken_def item_adler_def)

lemma scenario_fetch:
  "make_rows (cfg_fromiso cfg0) (cfg_local cfg0) (strip_cancellations [item_falken, item_adler])
     = Inr [(1, text_adler, True), (2, text_falken, False)]"
  by (simp add: strip_cancellations_def not_cancelled scenario_rows cfg0_def)

lemma scenario_fp: "fingerprint (cfg_sha256 cfg0) [(1, text_adler, True), (2, text_falken, False)] = fp_scenario"
  by (simp add: fingerprint_def cfg0_def fp_scenario_def)

lemma scenario_reconcile:
  "reconcile (cfg_reserved cfg0) (read_sheet (cfg_int cfg0) (cfg_reserved cfg0) [])
       [(1, text_adler, True), (2, text_falken, False)]
     = ([(2, [IntCell 1, StrCell text_adler]), (3, [IntCell 2, StrCell text_falken])],
        [(2, Some True), (3, Some False)])"
  by (simp add: reconcile_def read_sheet_def cfg0_def reserved_default_def row_for_position_def)

theorem last_fp_set_only_after_apply_witness:
  "tick cfg0 env_ok None
     = (Some fp_scenario,
        [ReadSheet,
         BatchWrite [(2, [IntCell 1, StrCell text_adler]), (3, [IntCell 2, StrCell text_falken])],
         ColourRows [(2, Some True), (3, Some False)]],
        None)
   \<and> tick cfg0 (env_ok\<lparr>colour_result := Some StoreError\<rparr>) None
     = (None,
        [ReadSheet,
         BatchWrite [(2, [IntCell 1, StrCell text_adler]), (3, [IntCell 2, StrCell text_falken])],
         ColourRows [(2, Some True), (3, Some False)]],
        Some StoreError)
   \<and> tick cfg0 (env_ok\<lparr>read_result := Inl StoreError\<rparr>) None = (None, [ReadSheet], Some StoreError)
   \<and> tick cfg0 env_ok (Some fp_scenario) = (Some fp_scenario, [], None)
   \<and> tick cfg0 (env_ok\<lparr>fetch_result := Inl SourceError\<rparr>) (Some fp_scenario)
     = (Some fp_scenario, [], Some SourceError)
   \<and> length (snd (main cfg0 [env_ok\<lparr>fetch_result := Inl SourceError\<rparr>, env_ok])) = 2"
proof -
  note rows = scenario_fetch scenario_fp scenario_reconcile
  have 1: "tick cfg0 env_ok None
     = (Some fp_scenario,
        [ReadSheet,
         BatchWrite [(2, [IntCell 1, StrCell text_adler]), (3, [IntCell 2, StrCell text_falken])],
         ColourRows [(2, Some True), (3, Some False)]],
        None)"
    using last_fp_set_only_after_apply [where e = env_ok and cfg = cfg0 and last_fp = None
        and ds = "[item_falken, item_adler]" and cells = "[]"
        and rows = "[(1, text_adler, True), (2, text_falken, False)]"]
    by (simp add: rows env_ok_def apply_changes_def colour_rows_def)
  have 2: "tick cfg0 (env_ok\<lparr>colour_result := Some StoreError\<rparr>) None
     = (None,
        [ReadSheet,
         BatchWrite [(2, [IntCell 1, StrCell text_adler]), (3, [IntCell 2, StrCell text_falken])],
         ColourRows [(2, Some True), (3, Some False)]],
        Some StoreError)"
    using last_fp_set_only_after_apply [where e = "env_ok\<lparr>colour_result := Some StoreError\<rparr>"
        and cfg = cfg0 and last_fp = None and x = StoreError
        and ds = "[item_falken, item_adler]" and cells = "[]"
        and rows = "[(1, text_adler, True), (2, text_falken, False)]"]
    by (simp add: rows env_ok_def apply_changes_def colour_rows_def)
  have 3: "tick cfg0 (env_ok\<lparr>read_result := Inl StoreError\<rparr>) None = (None, [ReadSheet], Some StoreError)"
    using last_fp_set_only_after_apply [where e = "env_ok\<lparr>read_result := Inl StoreError\<rparr>"
        and cfg = cfg0 and last_fp = None and x = StoreError
        and ds = "[item_falken, item_adler]"
        and rows = "[(1, text_adler, True), (2, text_falken, False)]"]
    by (simp add: rows env_ok_def)
  have 4: "tick cfg0 env_ok (Some fp_scenario) = (Some fp_scenario, [], None)"
    using last_fp_set_only_after_apply [where e = env_ok and cfg = cfg0
        and last_fp = "Some fp_scenario" and ds = "[item_falken, item_adler]"
        and rows = "[(1, text_adler, True), (2, text_falken, False)]"]
    by (simp add: rows env_ok_def)
  have 5: "tick cfg0 (env_ok\<lparr>fetch_result := Inl SourceError\<rparr>) (Some fp_scenario)
     = (Some fp_scenario, [], Some SourceError)"
    using last_fp_set_only_after_apply [where e = "env_ok\<lparr>fetch_result := Inl SourceError\<rparr>"
        and cfg = cfg0 and last_fp = "Some fp_scenario" and x = SourceError]
    by simp
  have 6: "length (snd (main cfg0 [env_ok\<lparr>fetch_result := Inl SourceError\<rparr>, env_ok])) = 2"
    using last_fp_set_only_after_apply
      [where cfg = cfg0 and es = "[env_ok\<lparr>fetch_result := Inl SourceError\<rparr>, env_ok]"]
    by simp
  from 1 2 3 4 5 6 show ?thesis by blast
qed

section \<open>Malformed records\<close>

lemma sort_keys_fails:
  "it \<in> set items \<Longrightarrow> key_of parse local it = Inl x \<Longrightarrow> \<exists>y. sort_keys parse local items = Inl y"
  by (induction items) (auto split: sum.splits)

lemma make_rows_fails:
  "it \<in> set items \<Longrightarrow> key_of parse local it = Inl x \<Longrightarrow> \<exists>y. make_rows parse local items = Inl y"
  using sort_keys_fails [of it items parse local x] by (auto simp: make_rows_def)

lemma key_bad: "key_of fromisoformat_documented local item_bad = Inl ValueError"
  by (simp add: key_of_def item_bad_def dt_defs)

lemma bad_rows: "make_rows fromisoformat_documented local [item_adler, item_bad] = Inl ValueError"
  by (simp add: make_rows_def key_adler key_bad)

lemma not_cancelled_bad: "\<not> cancelled item_bad"
  by (simp add: cancelled_def item_bad_def)

text \<open>
  Claim C9 says that a malformed record does not abort the cycle and that the well-formed
  records are still processed. In the code the first record whose timestamp is missing
  or does not parse ends \<open>make_rows\<close> with its exception. Here the payload holds the
  well-formed record of team Adler and a record whose timestamp is the word
  \<open>yesterday\<close>: no row is built, and the tick sends nothing to the sheet.
\<close>

theorem malformed_record_fails_tick:
  "make_rows (cfg_fromiso cfg0) (cfg_local cfg0) [item_adler, item_bad] = Inl ValueError
   \<and> tick cfg0 env_bad None = (None, [], Some ValueError)"
  by (simp add: cfg0_def bad_rows tick_def tick_body_def fetch_persons_def env_bad_def
      strip_cancellations_def not_cancelled not_cancelled_bad)

text \<open>
  Claim C9, amended. When a fetched record that is not cancelled has no creation
  timestamp, or one that is no string, or one on which \<open>to_dt\<close> raises, \<open>make_rows\<close> raises
  for the whole payload
  and the tick ends with that exception: no request goes to the sheet and \<open>last_fp\<close> is
  unchanged.
\<close>

theorem malformed_record_aborts_tick:
  assumes "fetch_result e = Inr ds" and "it \<in> set ds" and "\<not> cancelled it"
      and "creation_date it = None \<or> creation_date it = Some JOther
           \<or> (\<exists>s x. creation_date it = Some (JStr s)
                  \<and> to_dt (cfg_fromiso cfg) (cfg_local cfg) s = Inl x)"
  shows "\<exists>y. make_rows (cfg_fromiso cfg) (cfg_local cfg) (strip_cancellations ds) = Inl y
            \<and> tick cfg e last_fp = (last_fp, [], Some y)"
proof -
  from assms(4) obtain x where "key_of (cfg_fromiso cfg) (cfg_local cfg) it = Inl x"
    by (auto simp: key_of_def)
  moreover from assms(2,3) have "it \<in> set (strip_cancellations ds)"
    by (simp add: strip_cancellations_def)
  ultimately obtain y where y: "make_rows (cfg_fromiso cfg) (cfg_local cfg) (strip_cancellations ds) = Inl y"
    using make_rows_fails by blast
  with assms(1) have "tick cfg e last_fp = (last_fp, [], Some y)"
    by (simp add: tick_def tick_body_def fetch_persons_def)
  with y show ?thesis by blast
qed

theorem malformed_record_aborts_tick_witness:
  "\<exists>y. make_rows (cfg_fromiso cfg0) (cfg_local cfg0) (strip_cancellations [item_adler, item_bad]) = Inl y
       \<and> tick cfg0 env_bad (Some fp_scenario) = (Some fp_scenario, [], Some y)"
proof -
  have 1: "fetch_result env_bad = Inr [item_adler, item_bad]"
    by (simp add: env_bad_def)
  have 2: "item_bad \<in> set [item_adler, item_bad]"
    by simp
  have "to_dt (cfg_fromiso cfg0) (cfg_local cfg0) (asc ''yesterday'') = Inl ValueError"
    by (simp add: cfg0_def dt_defs)
  then have 3: "creation_date item_bad = None \<or> creation_date item_bad = Some JOther
           \<or> (\<exists>s x. creation_date item_bad = Some (JStr s)
                  \<and> to_dt (cfg_fromiso cfg0) (cfg_local cfg0) s = Inl x)"
    by (simp add: item_bad_def)
  show ?thesis
    by (rule malformed_record_aborts_tick [OF 1 2 not_cancelled_bad 3])
qed

section \<open>Properties of the timestamp normalisation\<close>

lemma digits_acc_snoc:
  "d < 10 \<Longrightarrow> digits_acc a (xs @ [48 + d]) = map_option (\<lambda>v. 10 * v + d) (digits_acc a xs)"
  by (induction xs arbitrary: a) (auto simp: digit_def split: option.splits)

lemma digits_pad: "n < 10 ^ k \<Longrightarrow> digits_acc 0 (pad k n) = Some n"
proof (induction k arbitrary: n)
  case 0
  then show ?case by simp
next
  case (Suc k)
  then have "n div 10 < 10 ^ k" by (simp add: less_mult_imp_div_less mult.commute)
  with Suc.IH have "digits_acc 0 (pad k (n div 10)) = Some (n div 10)" by simp
  then show ?case by (simp add: digits_acc_snoc)
qed

lemma length_pad: "length (pad k n) = k"
  by (induction k arbitrary: n) auto

lemma pad_digit: "c \<in> set (pad k n) \<Longrightarrow> 48 \<le> c \<and> c \<le> 57"
proof (induction k arbitrary: n)
  case 0
  then show ?case by simp
next
  case (Suc k)
  have "n mod 10 < 10" by simp
  with Suc show ?case by auto
qed

lemma field_pad:
  "n < 10 ^ k \<Longrightarrow> length pre = i \<Longrightarrow> field (pre @ pad k n @ rest) i k = Some n"
  by (simp add: field_def length_pad digits_pad)

lemma parse_hms_render:
  assumes "h < 100" "mi < 100" "prec_ok p" "frac3 \<or> (\<forall>s f. p \<noteq> Millis s f)"
  shows "parse_hms frac3 (pad 2 h @ 58 # pad 2 mi @ render_prec p)
           = Some (h, mi, prec_second p, prec_micro p)"
  using assms
  by (cases p) (simp_all add: parse_hms_def field_def length_pad digits_pad nth_append Let_def)

lemma render_prec_no_sign: "c \<in> set (render_prec p) \<Longrightarrow> \<not> is_sign c"
  by (cases p) (auto simp: is_sign_def dest: pad_digit)

lemma time_no_sign:
  "c \<in> set (pad 2 h @ 58 # pad 2 mi @ render_prec p) \<Longrightarrow> \<not> is_sign c"
  using render_prec_no_sign [of c p] by (auto simp: is_sign_def dest: pad_digit)

lemma parse_offset_east:
  "h < 100 \<Longrightarrow> m < 100 \<Longrightarrow> h * 60 + m < 1440 \<Longrightarrow>
   parse_offset (43 # pad 2 h @ 58 # pad 2 m) = Some ((int h * 3600 + int m * 60) * 1000000)"
  using parse_hms_render [of h m Minutes False]
  by (simp add: parse_offset_def length_pad)

lemma parse_offset_west:
  "h < 100 \<Longrightarrow> m < 100 \<Longrightarrow> h * 60 + m < 1440 \<Longrightarrow>
   parse_offset (45 # pad 2 h @ 58 # pad 2 m) = Some (- ((int h * 3600 + int m * 60) * 1000000))"
  using parse_hms_render [of h m Minutes False]
  by (simp add: parse_offset_def length_pad)


lemma days_in_month_le: "days_in_month y m \<le> 31"
  by (simp add: days_in_month_def)

lemma split_time_zone:
  assumes "\<forall>c \<in> set tm. \<not> is_sign c" and "z = [] \<or> is_sign (hd z)"
  shows "takeWhile (\<lambda>c. \<not> is_sign c) (tm @ z) = tm"
    and "dropWhile (\<lambda>c. \<not> is_sign c) (tm @ z) = z"
proof -
  from assms(2) have t: "takeWhile (\<lambda>c. \<not> is_sign c) z = []"
    and d: "dropWhile (\<lambda>c. \<not> is_sign c) z = z"
    by (cases z; simp)+
  from assms(1) show "takeWhile (\<lambda>c. \<not> is_sign c) (tm @ z) = tm"
    by (simp add: takeWhile_append2 t)
  from assms(1) show "dropWhile (\<lambda>c. \<not> is_sign c) (tm @ z) = z"
    by (simp add: dropWhile_append2 d)
qed

lemma fromisoformat_render:
  assumes date: "1 \<le> y" "y \<le> 9999" "1 \<le> m" "m \<le> 12" "1 \<le> d" "d \<le> days_in_month y m"
      and tm: "parse_hms True tm = Some (h, mi, s, f)" "\<forall>c \<in> set tm. \<not> is_sign c"
              "h < 24" "mi < 60" "s < 60"
      and z: "z = [] \<and> off = None \<or> z \<noteq> [] \<and> is_sign (hd z) \<and> parse_offset z = off \<and> off \<noteq> None"
  shows "fromisoformat_documented (pad 4 y @ 45 # pad 2 m @ 45 # pad 2 d @ sep # tm @ z)
           = Inr \<lparr>dt_year = y, dt_month = m, dt_day = d, dt_hour = h, dt_minute = mi,
                  dt_second = s, dt_microsecond = f, dt_utcoffset = off\<rparr>"
proof -
  let ?s = "pad 4 y @ 45 # pad 2 m @ 45 # pad 2 d @ sep # tm @ z"
  from date have d100: "d < 100"
    using days_in_month_le [of y m] by simp
  from tm(1) have "tm \<noteq> []"
    by (auto simp: parse_hms_def)
  then have len: "length ?s \<noteq> 10" "\<not> length ?s < 10"
    by (simp_all add: length_pad)
  have idx: "?s ! 4 = 45" "?s ! 7 = 45"
    by (simp_all add: nth_append length_pad)
  have fy: "field ?s 0 4 = Some y"
    using date by (simp add: field_def length_pad digits_pad)
  have fm: "field ?s 5 2 = Some m"
    using date by (simp add: field_def length_pad digits_pad)
  have fd: "field ?s 8 2 = Some d"
    using d100 by (simp add: field_def length_pad digits_pad)
  have dr: "drop 11 ?s = tm @ z"
    by (simp add: length_pad)
  from z have z': "z = [] \<or> is_sign (hd z)" by blast
  note sp = split_time_zone [OF tm(2) z']
  from date have ok: "\<not> (y < 1 \<or> m < 1 \<or> 12 < m \<or> d < 1 \<or> days_in_month y m < d)"
    by simp
  from tm have tok: "\<not> (23 < h \<or> 59 < mi \<or> 59 < s)"
    by simp
  show ?thesis
    unfolding fromisoformat_documented_def
    using z by (simp only: len idx fy fm fd dr sp ok tok tm(1) Let_def simp_thms if_False if_True
        prod.case option.case) (auto)
qed

lemma pad_numeral: "pad (numeral k) n = pad (pred_numeral k) (n div 10) @ [48 + n mod 10]"
proof -
  have "pad (Suc (pred_numeral k)) n = pad (pred_numeral k) (n div 10) @ [48 + n mod 10]"
    by simp
  then show ?thesis by (simp only: numeral_eq_Suc [symmetric])
qed

lemma endswith_Z_last: "endswith s (asc ''Z'') \<Longrightarrow> s \<noteq> [] \<and> last s = 90"
proof -
  assume e: "endswith s (asc ''Z'')"
  then have n: "s \<noteq> []" by (auto simp: endswith_def asc_def)
  then obtain xs x where s: "s = xs @ [x]" by (cases s rule: rev_cases) auto
  with e show ?thesis by (simp add: endswith_def asc_def)
qed

lemma last_digit_not_Z: "last (xs @ [48 + n mod 10]) \<noteq> (90::nat)"
proof -
  have "n mod 10 < 10" by simp
  then show ?thesis by simp
qed

lemma render_time_snoc: "\<exists>xs n. render_time st = xs @ [48 + n mod 10]"
proof (cases "st_prec st")
  case Minutes
  have "render_time st = (pad 2 (st_hour st) @ 58 # pad 1 (st_minute st div 10)) @ [48 + st_minute st mod 10]"
    by (simp add: render_time_def Minutes pad_numeral)
  then show ?thesis by blast
next
  case (Seconds s)
  have "render_time st = (pad 2 (st_hour st) @ 58 # pad 2 (st_minute st) @ 58 # pad 1 (s div 10)) @ [48 + s mod 10]"
    by (simp add: render_time_def Seconds pad_numeral)
  then show ?thesis by blast
next
  case (Millis s f)
  have "render_time st = (pad 2 (st_hour st) @ 58 # pad 2 (st_minute st) @ 58 # pad 2 s @ 46 # pad 2 (f div 10)) @ [48 + f mod 10]"
    by (simp add: render_time_def Millis pad_numeral)
  then show ?thesis by blast
next
  case (Micros s f)
  have "render_time st = (pad 2 (st_hour st) @ 58 # pad 2 (st_minute st) @ 58 # pad 2 s @ 46 # pad 5 (f div 10)) @ [48 + f mod 10]"
    by (simp add: render_time_def Micros pad_numeral)
  then show ?thesis by blast
qed

lemma render_time_no_sign: "c \<in> set (render_time st) \<Longrightarrow> \<not> is_sign c"
  unfolding render_time_def by (rule time_no_sign)

lemma render_time_length: "5 \<le> length (render_time st)"
  by (simp add: render_time_def length_pad)

lemma utc_suffix_pad: "UTC_SUFFIX = 43 # pad 2 0 @ 58 # pad 2 0"
  by (simp add: UTC_SUFFIX_def asc_def pad_numeral)

lemma last6_long:
  assumes "length D = 10" and "6 \<le> length R"
  shows "set (last6 (D @ R)) \<subseteq> set R"
proof -
  from assms have "last6 (D @ R) = drop (length R - 6) R"
    by (simp add: last6_def)
  then show ?thesis by (simp add: set_drop_subset)
qed

lemma last6_exact: "length Z = 6 \<Longrightarrow> last6 (X @ Z) = Z"
  by (simp add: last6_def)

lemma not_endswith_Z: "\<not> endswith (xs @ [48 + n mod 10]) (asc ''Z'')"
  using endswith_Z_last [of "xs @ [48 + n mod 10]"] last_digit_not_Z [of xs n] by blast

lemma endswith_Z_snoc: "endswith (xs @ [90]) (asc ''Z'')"
  by (simp add: endswith_def asc_def)

lemma sign_iff: "is_sign c \<longleftrightarrow> c = 43 \<or> c = 45"
  by (simp add: is_sign_def)


lemma prec_second_lt: "prec_ok p \<Longrightarrow> prec_second p < 60"
  by (cases p) simp_all

lemma zone_string:
  assumes "zone_ok z"
  defines "Z \<equiv> (case z of Zulu \<Rightarrow> UTC_SUFFIX | Bare \<Rightarrow> UTC_SUFFIX | _ \<Rightarrow> render_zone z)"
  shows "Z \<noteq> []" and "is_sign (hd Z)" and "parse_offset Z = Some (zone_offset z)"
    and "length Z = 6"
proof -
  have u: "parse_offset UTC_SUFFIX = Some 0"
    using parse_offset_east [of 0 0] by (simp add: utc_suffix_pad)
  have l: "length UTC_SUFFIX = 6" "UTC_SUFFIX \<noteq> []" "is_sign (hd UTC_SUFFIX)"
    by (simp_all add: UTC_SUFFIX_def asc_def is_sign_def)
  show "Z \<noteq> []" using l by (cases z) (simp_all add: Z_def)
  show "is_sign (hd Z)" using l by (cases z) (simp_all add: Z_def is_sign_def)
  show "length Z = 6" using l by (cases z) (simp_all add: Z_def length_pad)
  show "parse_offset Z = Some (zone_offset z)"
    using assms(1) u by (cases z) (simp_all add: Z_def parse_offset_east parse_offset_west)
qed

lemma to_dt_stamp_aux:
  assumes agree: "\<And>s dt. fromisoformat_documented s = Inr dt \<Longrightarrow> parse s = Inr dt"
      and ok: "stamp_ok st"
  shows "to_dt parse local (render_stamp st) = in_range (stamp_instant st)"
proof -
  define D where "D = pad 4 (st_year st) @ 45 # pad 2 (st_month st) @ 45 # pad 2 (st_day st)"
  define T where "T = render_time st"
  define X where "X = D @ st_sep st # T"
  define z where "z = st_zone st"
  define Z where "Z = (case z of Zulu \<Rightarrow> UTC_SUFFIX | Bare \<Rightarrow> UTC_SUFFIX | _ \<Rightarrow> render_zone z)"
  from ok have zok: "zone_ok z" by (simp add: stamp_ok_def z_def)
  note Zs = zone_string [OF zok, folded Z_def]
  have lenD: "length D = 10" by (simp add: D_def length_pad)
  have lenT: "5 \<le> length T" by (simp add: T_def render_time_length)
  obtain xs n where Tsnoc: "T = xs @ [48 + n mod 10]"
    using render_time_snoc [of st] by (auto simp: T_def)
  have Tns: "\<forall>c \<in> set T. \<not> is_sign c"
    by (simp add: T_def render_time_no_sign)
  with ok have Rns: "\<forall>c \<in> set (st_sep st # T). \<not> is_sign c"
    by (simp add: stamp_ok_def)
  have rs: "render_stamp st = X @ render_zone z"
    by (simp add: render_stamp_def X_def D_def T_def z_def)
  have Xsnoc: "X = (D @ st_sep st # xs) @ [48 + n mod 10]"
    by (simp add: X_def Tsnoc)
  \<comment> \<open>the string that reaches the parser\<close>
  have norm: "to_dt parse local (render_stamp st)
                = (case parse (X @ Z) of Inl e \<Rightarrow> Inl e | Inr dt \<Rightarrow> astimezone_utc local dt)"
  proof (cases z)
    case Zulu
    have "endswith (X @ [90]) (asc ''Z'')" by (rule endswith_Z_snoc)
    then show ?thesis
      by (simp add: to_dt_def rs Zulu Z_def)
  next
    case Bare
    have e: "\<not> endswith X (asc ''Z'')"
      unfolding Xsnoc by (rule not_endswith_Z)
    have "set (last6 X) \<subseteq> set (st_sep st # T)"
      unfolding X_def using lenD lenT by (intro last6_long) simp_all
    with Rns have "43 \<notin> set (last6 X)" "45 \<notin> set (last6 X)"
      by (auto simp: sign_iff)
    with e show ?thesis
      by (simp add: to_dt_def rs Bare Z_def)
  next
    case (East h m)
    have Zr: "Z = render_zone z" by (simp add: Z_def East)
    have eq: "X @ Z = (X @ 43 # pad 2 h @ 58 # pad 1 (m div 10)) @ [48 + m mod 10]"
      by (simp add: Zr East pad_numeral)
    have e: "\<not> endswith (X @ Z) (asc ''Z'')"
      unfolding eq by (rule not_endswith_Z)
    have "last6 (X @ Z) = Z" using Zs(4) by (rule last6_exact)
    moreover have "43 \<in> set Z" by (simp add: Zr East)
    ultimately show ?thesis
      using e by (simp add: to_dt_def rs Zr [symmetric])
  next
    case (West h m)
    have Zr: "Z = render_zone z" by (simp add: Z_def West)
    have eq: "X @ Z = (X @ 45 # pad 2 h @ 58 # pad 1 (m div 10)) @ [48 + m mod 10]"
      by (simp add: Zr West pad_numeral)
    have e: "\<not> endswith (X @ Z) (asc ''Z'')"
      unfolding eq by (rule not_endswith_Z)
    have "last6 (X @ Z) = Z" using Zs(4) by (rule last6_exact)
    moreover have "45 \<in> set Z" by (simp add: Zr West)
    ultimately show ?thesis
      using e by (simp add: to_dt_def rs Zr [symmetric])
  qed
  \<comment> \<open>what the parser returns\<close>
  from ok have f: "st_hour st < 100" "st_minute st < 100" "prec_ok (st_prec st)"
    by (simp_all add: stamp_ok_def)
  have ph: "parse_hms True T
              = Some (st_hour st, st_minute st, prec_second (st_prec st), prec_micro (st_prec st))"
    unfolding T_def render_time_def using f by (intro parse_hms_render) simp_all
  from ok have date: "1 \<le> st_year st" "st_year st \<le> 9999" "1 \<le> st_month st" "st_month st \<le> 12"
      "1 \<le> st_day st" "st_day st \<le> days_in_month (st_year st) (st_month st)"
      and tm: "st_hour st < 24" "st_minute st < 60"
    by (simp_all add: stamp_ok_def)
  have sec: "prec_second (st_prec st) < 60"
    using f(3) by (rule prec_second_lt)
  have zc: "Z = [] \<and> Some (zone_offset z) = None
            \<or> Z \<noteq> [] \<and> is_sign (hd Z) \<and> parse_offset Z = Some (zone_offset z)
              \<and> Some (zone_offset z) \<noteq> None"
    using Zs by simp
  have "fromisoformat_documented
          (pad 4 (st_year st) @ 45 # pad 2 (st_month st) @ 45 # pad 2 (st_day st) @ st_sep st # T @ Z)
        = Inr \<lparr>dt_year = st_year st, dt_month = st_month st, dt_day = st_day st,
               dt_hour = st_hour st, dt_minute = st_minute st,
               dt_second = prec_second (st_prec st), dt_microsecond = prec_micro (st_prec st),
               dt_utcoffset = Some (zone_offset z)\<rparr>"
    by (rule fromisoformat_render [OF date ph Tns tm sec zc])
  then have "parse (X @ Z)
        = Inr \<lparr>dt_year = st_year st, dt_month = st_month st, dt_day = st_day st,
               dt_hour = st_hour st, dt_minute = st_minute st,
               dt_second = prec_second (st_prec st), dt_microsecond = prec_micro (st_prec st),
               dt_utcoffset = Some (zone_offset z)\<rparr>"
    using agree by (simp add: X_def D_def)
  then show ?thesis
    by (simp add: norm astimezone_utc_def wall_clock_def stamp_instant_def z_def)
qed

section \<open>The normalisation on timestamps with a time of day\<close>

text \<open>
  Claim C6 says that a timestamp without an explicit offset is taken as UTC, and that
  timestamps for the same instant get equal values. \<open>to_dt\<close> looks for the characters
  \<open>+\<close> and \<open>-\<close> in the last six characters. In the date \<open>2024-01-02\<close> these hold the two
  hyphens of the date, so nothing is appended, the parsed value is naive, and
  \<^verbatim>\<open>astimezone\<close> reads it as local time. On a machine one hour east of UTC the date alone
  and the same date with midnight as time of day, neither with an offset, get values one
  hour apart.
\<close>

theorem to_dt_date_only_is_local_time:
  "to_dt fromisoformat_documented (\<lambda>w. Inr 3600000000) (asc ''2024-01-02'')
     = Inr 63839833200000000
   \<and> to_dt fromisoformat_documented (\<lambda>w. Inr 3600000000) (asc ''2024-01-02T00:00:00'')
     = Inr 63839836800000000"
  by (simp add: dt_defs)

text \<open>
  Claim C6, amended. Take a timestamp made of a date, one separator character other than
  \<open>+\<close> and \<open>-\<close>, hours and minutes, optionally seconds and a fraction of three or six
  digits, and then the letter Z, nothing, or an offset \<open>+HH:MM\<close> or \<open>-HH:MM\<close>, with valid
  field values. With any \<^verbatim>\<open>fromisoformat\<close> that reads the documented format as documented,
  \<open>to_dt\<close> returns the UTC instant that the timestamp denotes, where Z and a missing
  offset mean UTC and an explicit offset is subtracted, or raises \<^verbatim>\<open>OverflowError\<close> when
  that instant lies outside the years 1 to 9999. The local time zone of the machine
  plays no part. So two such timestamps that denote the same instant get equal values.
\<close>

theorem to_dt_normalises_stamps:
  assumes "\<forall>s dt. fromisoformat_documented s = Inr dt \<longrightarrow> fromisoformat s = Inr dt"
  shows "(\<forall>st. stamp_ok st \<longrightarrow>
            to_dt fromisoformat local (render_stamp st)
              = (if stamp_instant st < MIN_INSTANT \<or> MAX_INSTANT < stamp_instant st
                 then Inl OverflowError else Inr (stamp_instant st)))
       \<and> (\<forall>a b. stamp_ok a \<and> stamp_ok b \<and> stamp_instant a = stamp_instant b \<longrightarrow>
            to_dt fromisoformat local (render_stamp a)
              = to_dt fromisoformat local (render_stamp b))"
proof -
  from assms have agree: "\<And>s dt. fromisoformat_documented s = Inr dt \<Longrightarrow> fromisoformat s = Inr dt"
    by blast
  have "to_dt fromisoformat local (render_stamp st) = in_range (stamp_instant st)"
    if "stamp_ok st" for st
    using agree that by (rule to_dt_stamp_aux)
  then show ?thesis
    by (simp add: in_range_def)
qed

lemma stamp_east_facts:
  "stamp_ok stamp_east" "render_stamp stamp_east = asc ''2024-01-01T10:30:00+02:00''"
  "stamp_instant stamp_east = 63839781000000000"
  by (simp_all add: stamp_east_def stamp_ok_def render_stamp_def render_time_def pad_numeral asc_def
      days_in_month_def is_leap_def is_sign_def stamp_instant_def ordinal_def days_before_year_def
      days_before_month_def)

lemma stamp_zulu_facts:
  "stamp_ok stamp_zulu" "render_stamp stamp_zulu = asc ''2024-01-01T08:30:00Z''"
  "stamp_instant stamp_zulu = 63839781000000000"
  by (simp_all add: stamp_zulu_def stamp_ok_def render_stamp_def render_time_def pad_numeral asc_def
      days_in_month_def is_leap_def is_sign_def stamp_instant_def ordinal_def days_before_year_def
      days_before_month_def)

theorem to_dt_normalises_stamps_witness:
  "to_dt fromisoformat_documented (\<lambda>w. Inr 3600000000) (asc ''2024-01-01T10:30:00+02:00'')
     = Inr 63839781000000000
   \<and> to_dt fromisoformat_documented (\<lambda>w. Inr 3600000000) (asc ''2024-01-01T08:30:00Z'')
     = Inr 63839781000000000"
proof -
  have a: "\<forall>s dt. fromisoformat_documented s = Inr dt \<longrightarrow> fromisoformat_documented s = Inr dt"
    by simp
  note t = to_dt_normalises_stamps [OF a, of "\<lambda>w. Inr 3600000000", THEN conjunct1, rule_format]
  have "to_dt fromisoformat_documented (\<lambda>w. Inr 3600000000) (render_stamp stamp_east)
          = Inr (stamp_instant stamp_east)"
    using t [OF stamp_east_facts(1)]
    by (simp add: stamp_east_facts(3) MIN_INSTANT_def MAX_INSTANT_def)
  moreover have "to_dt fromisoformat_documented (\<lambda>w. Inr 3600000000) (render_stamp stamp_zulu)
          = Inr (stamp_instant stamp_zulu)"
    using t [OF stamp_zulu_facts(1)]
    by (simp add: stamp_zulu_facts(3) MIN_INSTANT_def MAX_INSTANT_def)
  ultimately show ?thesis
    by (simp add: stamp_east_facts stamp_zulu_facts)
qed

section \<open>The row builder on well-formed records\<close>




end
